theory Spec2Isabelle
  imports Complex_Main "HOL-Library.Word" "HOL-Library.List_Lexorder"
begin

section \<open>JavaScript strings\<close>

text \<open>
  A JavaScript string is a sequence of 16-bit code units; the regular expressions of
  \<^verbatim>\<open>fetcher.js\<close> carry no \<^verbatim>\<open>u\<close> flag, so they too work on code units. The
  order on strings (used by \<^verbatim>\<open>Array.prototype.sort\<close>) is the lexicographic order
  on code units, which is the order that the theory List_Lexorder of HOL-Library gives to lists.
\<close>

type_synonym jschar = "16 word"
type_synonym jsstr = "jschar list"

definition js :: "string \<Rightarrow> jsstr" where
  "js s = map (\<lambda>c. of_nat (of_char c)) s"

text \<open>
  The class \<^verbatim>\<open>\s\<close> and \<^verbatim>\<open>String.prototype.trim\<close> share one set: the WhiteSpace
  and LineTerminator code points of ECMAScript.
\<close>

definition isSpace :: "jschar \<Rightarrow> bool" where
  "isSpace c \<longleftrightarrow> c \<in> set [0x09, 0x0A, 0x0B, 0x0C, 0x0D, 0x20, 0xA0, 0x1680,
     0x2000, 0x2001, 0x2002, 0x2003, 0x2004, 0x2005, 0x2006, 0x2007, 0x2008, 0x2009, 0x200A,
     0x2028, 0x2029, 0x202F, 0x205F, 0x3000, 0xFEFF]"

definition isDigit :: "jschar \<Rightarrow> bool" where
  "isDigit c \<longleftrightarrow> 0x30 \<le> c \<and> c \<le> 0x39"

definition isUpper :: "jschar \<Rightarrow> bool" where
  "isUpper c \<longleftrightarrow> 0x41 \<le> c \<and> c \<le> 0x5A"

definition isLower :: "jschar \<Rightarrow> bool" where
  "isLower c \<longleftrightarrow> 0x61 \<le> c \<and> c \<le> 0x7A"

text \<open>The class \<^verbatim>\<open>\w\<close> is \<^verbatim>\<open>[A-Za-z0-9_]\<close>.\<close>

definition isWord :: "jschar \<Rightarrow> bool" where
  "isWord c \<longleftrightarrow> isUpper c \<or> isLower c \<or> isDigit c \<or> c = 0x5F"

text \<open>
  \<^verbatim>\<open>toLowerCase\<close> on the ASCII letters. The program lowers a string in two places: in
  \<^verbatim>\<open>normalizeKey\<close>, after every character outside \<^verbatim>\<open>\w\<close> and \<^verbatim>\<open>\s\<close> has been
  removed, and in \<^verbatim>\<open>parseValue\<close>, to compare the result with \<^verbatim>\<open>'yes'\<close> and
  \<^verbatim>\<open>'no'\<close>; no character outside ASCII lowers to one of the letters of these words, so
  the ASCII mapping decides both as the full Unicode mapping does.
\<close>

definition lowerChar :: "jschar \<Rightarrow> jschar" where
  "lowerChar c = (if isUpper c then c + 0x20 else c)"

definition toLowerCase :: "jsstr \<Rightarrow> jsstr" where
  "toLowerCase s = map lowerChar s"

definition trim :: "jsstr \<Rightarrow> jsstr" where
  "trim s = rev (dropWhile isSpace (rev (dropWhile isSpace s)))"

text \<open>\<^verbatim>\<open>s.replace(/[class]+/g, r)\<close>: every maximal run of the class becomes one \<open>r\<close>.\<close>

function replaceRuns :: "(jschar \<Rightarrow> bool) \<Rightarrow> jschar \<Rightarrow> jsstr \<Rightarrow> jsstr" where
  "replaceRuns P r [] = []"
| "replaceRuns P r (c # cs) =
     (if P c then r # replaceRuns P r (dropWhile P cs) else c # replaceRuns P r cs)"
  by pat_completeness auto
termination
  by (relation "measure (\<lambda>(P, r, cs). length cs)")
     (auto simp: le_imp_less_Suc length_dropWhile_le)

section \<open>Field normalizer\<close>

text \<open>
  \<^verbatim>\<open>
  function normalizeKey(label) {
    return (label || '')
      .replace(/\u00A0/g, ' ')
      .trim()
      .replace(/[:\u2013\u2014\-\/\\]+/g, ' ')
      .replace(/[^\w\s]/g, '')
      .toLowerCase()
      .replace(/\s+/g, '_');
  }
  \<close>
  The argument is a string at every call, and \<^verbatim>\<open>label || ''\<close> is \<^verbatim>\<open>label\<close> for every
  string, the empty one included. The source writes the en dash and the em dash
  literally; they are shown here as \<^verbatim>\<open>\u2013\<close> and \<^verbatim>\<open>\u2014\<close>.
\<close>

definition isSeparator :: "jschar \<Rightarrow> bool" where
  "isSeparator c \<longleftrightarrow> c \<in> set [0x3A, 0x2013, 0x2014, 0x2D, 0x2F, 0x5C]"

definition normalizeKey :: "jsstr \<Rightarrow> jsstr" where
  "normalizeKey label =
     replaceRuns isSpace 0x5F
       (toLowerCase
         (filter (\<lambda>c. isWord c \<or> isSpace c)
           (replaceRuns isSeparator 0x20
             (trim
               (map (\<lambda>c. if c = 0xA0 then 0x20 else c) label)))))"

text \<open>The characters a normalized key is made of: \<^verbatim>\<open>[a-z0-9_]\<close>.\<close>

definition isKeyChar :: "jschar \<Rightarrow> bool" where
  "isKeyChar c \<longleftrightarrow> isLower c \<or> isDigit c \<or> c = 0x5F"

section \<open>Values, objects and the runtime\<close>

text \<open>
  A number is a double: a finite one, given by the rational number it stands for (with
  \<open>Finite 0\<close> the positive zero), the negative zero, or an infinity (\<open>Infinity True\<close> the
  negative one). The program computes no number, so that \<^verbatim>\<open>NaN\<close> does not arise.
\<close>

datatype jsnumber = Finite rat | NegZero | Infinity bool

fun negateNumber :: "jsnumber \<Rightarrow> jsnumber" where
  "negateNumber (Finite r) = (if r = 0 then NegZero else Finite (- r))"
| "negateNumber NegZero = Finite 0"
| "negateNumber (Infinity negative) = Infinity (\<not> negative)"

text \<open>
  The values a record field can hold: \<^verbatim>\<open>null\<close>, booleans, numbers, strings, and
  structured values (arrays and objects), which only the serializer looks at. The type
  \<open>'o\<close> of structured values is left open.
\<close>

datatype 'o jsvalue = JNull | JBool bool | JNum jsnumber | JStr jsstr | JObj 'o

text \<open>
  What \<^verbatim>\<open>obj[k]\<close> yields on a plain object: the object's own property, else the
  member of that name which every plain object inherits from \<^verbatim>\<open>Object.prototype\<close>,
  else \<^verbatim>\<open>undefined\<close>.
\<close>

datatype 'v jsprop = Undefined | Own 'v | Inherited jsstr

definition objectPrototypeKeys :: "jsstr list" where
  "objectPrototypeKeys = map js
     [''constructor'', ''__defineGetter__'', ''__defineSetter__'', ''hasOwnProperty'',
      ''__lookupGetter__'', ''__lookupSetter__'', ''isPrototypeOf'', ''propertyIsEnumerable'',
      ''toString'', ''valueOf'', ''__proto__'', ''toLocaleString'']"

type_synonym 'v jsobject = "(jsstr \<times> 'v) list"

definition getProp :: "'v jsobject \<Rightarrow> jsstr \<Rightarrow> 'v jsprop" where
  "getProp obj k =
     (case map_of obj k of
        Some v \<Rightarrow> Own v
      | None \<Rightarrow> if k \<in> set objectPrototypeKeys then Inherited k else Undefined)"

text \<open>
  \<^verbatim>\<open>obj[k] = v\<close>: the own property is replaced in place or added at the end. The one
  name for which an assignment does otherwise is \<^verbatim>\<open>__proto__\<close>; the program writes to
  \<^verbatim>\<open>match_id\<close>, \<^verbatim>\<open>match_title\<close> and to field keys, and a field key is an entry of
  the canonical map, a normalized key that is no member of \<^verbatim>\<open>Object.prototype\<close>, or the
  text of such a member.
\<close>

fun setProp :: "'v jsobject \<Rightarrow> jsstr \<Rightarrow> 'v \<Rightarrow> 'v jsobject" where
  "setProp [] k v = [(k, v)]"
| "setProp ((k', v') # obj) k v =
     (if k' = k then (k, v) # obj else (k', v') # setProp obj k v)"

text \<open>
  What the program takes from its runtime.
  \<^item> \<open>numberToString\<close> and \<open>objectToString\<close>: \<^verbatim>\<open>String(v)\<close> on a number and on a
    structured value; \<open>jsonStringify\<close>: \<^verbatim>\<open>JSON.stringify(v)\<close> on a structured value.
  \<^item> \<open>inheritedToString\<close>: the text of the member of \<^verbatim>\<open>Object.prototype\<close> of a given
    name, as \<^verbatim>\<open>String\<close> and the conversion to a property key give it.
  \<^item> \<open>newDateISO\<close>: \<^verbatim>\<open>new Date(s).toISOString()\<close>, or \<open>None\<close> when the date is
    invalid.
  \<^item> \<open>parseTables\<close>: the \<^verbatim>\<open>DOMParser\<close>. It gives the \<^verbatim>\<open>table\<close> elements of
    the document, in document order; of a table the program reads whether it matches
    \<^verbatim>\<open>table.generic_kv_table\<close> (\<open>marked\<close>), the text of its first \<^verbatim>\<open>th\<close> if it has
    one, for each of its \<^verbatim>\<open>tr\<close> the texts of the \<^verbatim>\<open>td\<close> cells in it, and its
    \<^verbatim>\<open>outerHTML\<close>.
\<close>

record dom_table =
  marked :: bool
  th :: "jsstr option"
  trs :: "jsstr list list"
  outerHTML :: jsstr

record 'o runtime =
  numberToString :: "jsnumber \<Rightarrow> jsstr"
  objectToString :: "'o \<Rightarrow> jsstr"
  jsonStringify :: "'o \<Rightarrow> jsstr"
  inheritedToString :: "jsstr \<Rightarrow> jsstr"
  newDateISO :: "jsstr \<Rightarrow> jsstr option"
  parseTables :: "jsstr \<Rightarrow> dom_table list"

datatype error = NetworkError | HttpError nat | BodyError | Unreachable | RangeError

text \<open>\<^verbatim>\<open>String(v)\<close>, also what \<^verbatim>\<open>'id:' + v\<close> appends.\<close>

fun toString :: "'o runtime \<Rightarrow> 'o jsvalue \<Rightarrow> jsstr" where
  "toString rt JNull = js ''null''"
| "toString rt (JBool b) = (if b then js ''true'' else js ''false'')"
| "toString rt (JNum n) = numberToString rt n"
| "toString rt (JStr s) = s"
| "toString rt (JObj ob) = objectToString rt ob"

text \<open>
  Truthiness: \<^verbatim>\<open>null\<close>, \<^verbatim>\<open>false\<close>, the two zeros and \<^verbatim>\<open>''\<close> are falsy.
\<close>

fun truthy :: "'o jsvalue \<Rightarrow> bool" where
  "truthy JNull = False"
| "truthy (JBool b) = b"
| "truthy (JNum n) = (n \<noteq> Finite 0 \<and> n \<noteq> NegZero)"
| "truthy (JStr s) = (s \<noteq> [])"
| "truthy (JObj ob) = True"

fun truthyProp :: "'o jsvalue jsprop \<Rightarrow> bool" where
  "truthyProp Undefined = False"
| "truthyProp (Own v) = truthy v"
| "truthyProp (Inherited k) = True"

section \<open>Canonical map\<close>

definition CANONICAL_MAP :: "jsstr jsobject" where
  "CANONICAL_MAP = map (\<lambda>(k, v). (js k, js v))
     [(''reached_conclusion'', ''reached_conclusion''),
      (''type'', ''type''),
      (''map_index'', ''map_index''),
      (''match_creation_time'', ''match_creation_time''),
      (''match_ip'', ''match_ip''),
      (''match_port'', ''match_port''),
      (''datacenter'', ''datacenter''),
      (''match_size'', ''match_size''),
      (''join_time'', ''join_time''),
      (''party_id_at_join'', ''party_id_at_join''),
      (''team_at_join'', ''team_at_join''),
      (''ping_estimate_at_join'', ''ping_estimate_at_join''),
      (''joined_after_match_start'', ''joined_after_match_start''),
      (''time_in_queue'', ''time_in_queue''),
      (''match_end_time'', ''match_end_time''),
      (''season_id'', ''season_id''),
      (''match_status'', ''match_status''),
      (''match_duration'', ''match_duration''),
      (''red_team_final_score'', ''red_team_final_score''),
      (''blu_team_final_score'', ''blu_team_final_score''),
      (''winning_team'', ''winning_team''),
      (''game_mode'', ''game_mode''),
      (''win_reason'', ''win_reason''),
      (''match_flags'', ''match_flags''),
      (''match_included_bots'', ''match_included_bots''),
      (''time_left_match'', ''time_left_match''),
      (''result_partyid'', ''result_partyid''),
      (''result_team'', ''result_team''),
      (''result_score'', ''result_score''),
      (''result_ping'', ''result_ping''),
      (''result_player_flags'', ''result_player_flags''),
      (''result_displayed_rating'', ''result_displayed_rating''),
      (''result_displayed_rating_change'', ''result_displayed_rating_change''),
      (''result_rank'', ''result_rank''),
      (''classes_played'', ''classes_played''),
      (''kills'', ''kills''),
      (''deaths'', ''deaths''),
      (''damage'', ''damage''),
      (''healing'', ''healing''),
      (''support'', ''support''),
      (''score_medal'', ''score_medal''),
      (''kills_medal'', ''kills_medal''),
      (''damage_medal'', ''damage_medal''),
      (''healing_medal'', ''healing_medal''),
      (''support_medal'', ''support_medal''),
      (''leave_reason'', ''leave_reason''),
      (''connection_time'', ''connection_time'')]"

text \<open>
  \<^verbatim>\<open>const keyCanon = cfg.canonicalMap[keyNorm] || keyNorm;\<close>
  An own entry that is the empty string is falsy; an inherited member is a function or an
  object, and truthy.
\<close>

definition canonicalKey :: "jsstr jsobject \<Rightarrow> jsstr \<Rightarrow> jsstr jsprop" where
  "canonicalKey canonicalMap keyNorm =
     (case getProp canonicalMap keyNorm of
        Own v \<Rightarrow> if v \<noteq> [] then Own v else Own keyNorm
      | Inherited k \<Rightarrow> Inherited k
      | Undefined \<Rightarrow> Own keyNorm)"

text \<open>
  The property name that \<^verbatim>\<open>out[keyCanon]\<close> writes to: \<^verbatim>\<open>keyCanon\<close> converted to a
  string.
\<close>

fun propertyKey :: "'o runtime \<Rightarrow> jsstr jsprop \<Rightarrow> jsstr" where
  "propertyKey rt (Own s) = s"
| "propertyKey rt (Inherited k) = inheritedToString rt k"
| "propertyKey rt Undefined = js ''undefined''"

section \<open>Value parser\<close>

text \<open>
  \<^verbatim>\<open>parseInt\<close> and \<^verbatim>\<open>parseFloat\<close> give the double nearest to the value written,
  that of the even significand when two are equally near, and an infinity from
  \<open>2 ^ 1024 - 2 ^ 970\<close> on. (ECMAScript lets an implementation ignore the digits after
  the twentieth; the engines do not.) A double is \<open>n * 2 ^ q\<close> with \<open>n < 2 ^ 53\<close> and
  \<open>- 1074 \<le> q\<close>: for a positive \<open>a\<close> with \<open>2 ^ e \<le> a < 2 ^ (e + 1)\<close>, the spacing of
  the doubles around \<open>a\<close> is \<open>2 ^ q\<close> for \<open>q = max (e - 52) (- 1074)\<close>.
\<close>

definition roundHalfEven :: "rat \<Rightarrow> int" where
  "roundHalfEven m =
     (let f = \<lfloor>m\<rfloor>; d = m - of_int f
      in if d < 1 / 2 then f else if 1 / 2 < d then f + 1 else if even f then f else f + 1)"

function binaryExponent :: "rat \<Rightarrow> int" where
  "binaryExponent a =
     (if a \<le> 0 then 0
      else if 2 \<le> a then binaryExponent (a / 2) + 1
      else if a < 1 then binaryExponent (a * 2) - 1
      else 0)"
  by pat_completeness auto
termination
proof (relation "measure (\<lambda>a. if 1 \<le> a then nat \<lfloor>a\<rfloor> else nat \<lfloor>1 / a\<rfloor> + 1)")
  show "wf (measure (\<lambda>a::rat. if 1 \<le> a then nat \<lfloor>a\<rfloor> else nat \<lfloor>1 / a\<rfloor> + 1))"
    by simp
next
  fix a :: rat
  assume a: "\<not> a \<le> 0" "2 \<le> a"
  then have "a / 2 \<le> a - 1"
    by simp
  then have "\<lfloor>a / 2\<rfloor> \<le> \<lfloor>a - 1\<rfloor>"
    by (rule floor_mono)
  moreover from a have "2 \<le> \<lfloor>a\<rfloor>"
    by (simp add: le_floor_iff)
  ultimately show "(a / 2, a) \<in> measure (\<lambda>a. if 1 \<le> a then nat \<lfloor>a\<rfloor> else nat \<lfloor>1 / a\<rfloor> + 1)"
    using a by simp
next
  fix a :: rat
  assume a: "\<not> a \<le> 0" "\<not> 2 \<le> a" "a < 1"
  then have one: "1 \<le> \<lfloor>1 / a\<rfloor>"
    by (simp add: le_floor_iff)
  show "(a * 2, a) \<in> measure (\<lambda>a. if 1 \<le> a then nat \<lfloor>a\<rfloor> else nat \<lfloor>1 / a\<rfloor> + 1)"
  proof (cases "1 \<le> a * 2")
    case True
    with a have "\<lfloor>a * 2\<rfloor> = 1"
      by (intro floor_unique) simp_all
    with one True a show ?thesis
      by simp
  next
    case False
    with a have "2 \<le> 1 / a"
      by (simp add: le_divide_eq)
    then have "1 / a / 2 \<le> 1 / a - 1"
      by simp
    then have "\<lfloor>1 / a / 2\<rfloor> \<le> \<lfloor>1 / a - 1\<rfloor>"
      by (rule floor_mono)
    with one False a show ?thesis
      by simp
  qed
qed

declare binaryExponent.simps [simp del]

definition scaleBy :: "rat \<Rightarrow> int \<Rightarrow> rat" where
  "scaleBy x k = (if 0 \<le> k then x * 2 ^ nat k else x / 2 ^ nat (- k))"

definition roundPositive :: "rat \<Rightarrow> jsnumber" where
  "roundPositive a =
     (let e = binaryExponent a; q = max (e - 52) (- 1074);
          n = roundHalfEven (scaleBy a (- q)); r = scaleBy (of_int n) q
      in if 2 ^ 1024 \<le> r then Infinity False else Finite r)"

definition toNumber :: "bool \<Rightarrow> rat \<Rightarrow> jsnumber" where
  "toNumber negative a =
     (let v = (if a = 0 then Finite 0 else roundPositive a)
      in if negative then negateNumber v else v)"

text \<open>
  \<^verbatim>\<open>
  function tryParseNumber(s) {
    if (/^-?\d+$/.test(s)) return parseInt(s, 10);
    if (/^-?\d+\.\d+$/.test(s)) return parseFloat(s);
    return null;
  }
  \<close>
\<close>

definition unsignedPart :: "jsstr \<Rightarrow> jsstr" where
  "unsignedPart s = (case s of [] \<Rightarrow> [] | c # cs \<Rightarrow> if c = 0x2D then cs else s)"

definition isNegative :: "jsstr \<Rightarrow> bool" where
  "isNegative s = (case s of [] \<Rightarrow> False | c # cs \<Rightarrow> c = 0x2D)"

definition isDigits :: "jsstr \<Rightarrow> bool" where
  "isDigits s \<longleftrightarrow> s \<noteq> [] \<and> list_all isDigit s"

definition isIntegerPattern :: "jsstr \<Rightarrow> bool" where
  "isIntegerPattern s \<longleftrightarrow> isDigits (unsignedPart s)"

definition isDecimalPattern :: "jsstr \<Rightarrow> bool" where
  "isDecimalPattern s \<longleftrightarrow>
     (let u = unsignedPart s; whole = takeWhile isDigit u; rest = dropWhile isDigit u
      in whole \<noteq> [] \<and> (case rest of [] \<Rightarrow> False | c # decimals \<Rightarrow> c = 0x2E \<and> isDigits decimals))"

definition digitsValue :: "jsstr \<Rightarrow> nat" where
  "digitsValue ds = foldl (\<lambda>a c. 10 * a + (unat c - 48)) 0 ds"

definition parseInt10 :: "jsstr \<Rightarrow> jsnumber" where
  "parseInt10 s = toNumber (isNegative s) (of_nat (digitsValue (unsignedPart s)))"

definition parseFloat :: "jsstr \<Rightarrow> jsnumber" where
  "parseFloat s =
     (let u = unsignedPart s; whole = takeWhile isDigit u; decimals = drop 1 (dropWhile isDigit u)
      in toNumber (isNegative s)
           (of_nat (digitsValue whole) + of_nat (digitsValue decimals) / 10 ^ length decimals))"

definition tryParseNumber :: "jsstr \<Rightarrow> jsnumber option" where
  "tryParseNumber s =
     (if isIntegerPattern s then Some (parseInt10 s)
      else if isDecimalPattern s then Some (parseFloat s)
      else None)"

text \<open>
  \<^verbatim>\<open>
  function tryParseDate(s) {
    if (!s || !s.trim()) return null;
    const d = new Date(s);
    if (!isNaN(d.valueOf())) return d.toISOString();
    const m = s.match(/(\d{4}-\d{2}-\d{2})[ T](\d{2}:\d{2}:\d{2})/);
    if (m) return new Date(m[1] + 'T' + m[2] + 'Z').toISOString();
    return null;
  }
  \<close>
  \<^verbatim>\<open>toISOString\<close> throws a \<^verbatim>\<open>RangeError\<close> on an invalid date, which the second
  \<^verbatim>\<open>new Date\<close> can give.
\<close>

definition isColon :: "jschar \<Rightarrow> bool" where
  "isColon c \<longleftrightarrow> c = 0x3A"

definition isHyphen :: "jschar \<Rightarrow> bool" where
  "isHyphen c \<longleftrightarrow> c = 0x2D"

definition isSpaceOrT :: "jschar \<Rightarrow> bool" where
  "isSpaceOrT c \<longleftrightarrow> c = 0x20 \<or> c = 0x54"

definition dateTimePattern :: "(jschar \<Rightarrow> bool) list" where
  "dateTimePattern =
     [isDigit, isDigit, isDigit, isDigit, isHyphen, isDigit, isDigit, isHyphen, isDigit, isDigit,
      isSpaceOrT,
      isDigit, isDigit, isColon, isDigit, isDigit, isColon, isDigit, isDigit]"

definition dateTimeAt :: "jsstr \<Rightarrow> bool" where
  "dateTimeAt s \<longleftrightarrow> list_all2 (\<lambda>p c. p c) dateTimePattern (take 19 s)"

fun matchDateTime :: "jsstr \<Rightarrow> (jsstr \<times> jsstr) option" where
  "matchDateTime [] = None"
| "matchDateTime (c # cs) =
     (if dateTimeAt (c # cs) then Some (take 10 (c # cs), take 8 (drop 11 (c # cs)))
      else matchDateTime cs)"

definition tryParseDate :: "'o runtime \<Rightarrow> jsstr \<Rightarrow> error + jsstr option" where
  "tryParseDate rt s =
     (if s = [] \<or> trim s = [] then Inr None
      else case newDateISO rt s of
        Some txt \<Rightarrow> Inr (Some txt)
      | None \<Rightarrow>
          (case matchDateTime s of
             Some (d, t) \<Rightarrow>
               (case newDateISO rt (d @ js ''T'' @ t @ js ''Z'') of
                  Some txt \<Rightarrow> Inr (Some txt)
                | None \<Rightarrow> Inl RangeError)
           | None \<Rightarrow> Inr None))"

text \<open>
  \<^verbatim>\<open>
  function parseValue(raw, opts) {
    if (raw === null || raw === undefined) return null;
    const s = String(raw).trim();
    if (s === '') return null;
    const low = s.toLowerCase();
    if (low === 'yes') return true;
    if (low === 'no') return false;
    if (opts.parseNumbers) {
      const n = tryParseNumber(s);
      if (n !== null) return n;
    }
    if (opts.parseDates) {
      const iso = tryParseDate(s);
      if (iso) return iso;
    }
    return s;
  }
  \<close>
\<close>

record parse_opts =
  parseDates :: bool
  parseNumbers :: bool

definition parseValue ::
  "'o runtime \<Rightarrow> jsstr option \<Rightarrow> 'x parse_opts_scheme \<Rightarrow> error + 'o jsvalue" where
  "parseValue rt raw opts =
     (case raw of
        None \<Rightarrow> Inr JNull
      | Some r \<Rightarrow>
          let s = trim r in
          if s = [] then Inr JNull
          else let low = toLowerCase s in
            if low = js ''yes'' then Inr (JBool True)
            else if low = js ''no'' then Inr (JBool False)
            else case (if parseNumbers opts then tryParseNumber s else None) of
              Some n \<Rightarrow> Inr (JNum n)
            | None \<Rightarrow>
                if parseDates opts then
                  (case tryParseDate rt s of
                     Inl e \<Rightarrow> Inl e
                   | Inr (Some txt) \<Rightarrow> if txt \<noteq> [] then Inr (JStr txt) else Inr (JStr s)
                   | Inr None \<Rightarrow> Inr (JStr s))
                else Inr (JStr s))"

section \<open>Record extractor\<close>

text \<open>
  The header pattern \<^verbatim>\<open>/Match\s*([0-9]+)/i\<close>, searched from the left; the group takes
  the longest run of digits.
\<close>

definition matchIdAt :: "jsstr \<Rightarrow> jsstr option" where
  "matchIdAt s =
     (if toLowerCase (take 5 s) = js ''match'' then
        (let ds = takeWhile isDigit (dropWhile isSpace (drop 5 s))
         in if ds = [] then None else Some ds)
      else None)"

fun matchId :: "jsstr \<Rightarrow> jsstr option" where
  "matchId [] = None"
| "matchId (c # cs) =
     (case matchIdAt (c # cs) of Some ds \<Rightarrow> Some ds | None \<Rightarrow> matchId cs)"

text \<open>
  \<^verbatim>\<open>
  function extractTablesFromHtml(bigHtml) {
    const doc = new DOMParser().parseFromString(bigHtml || '', 'text/html');
    let tables = Array.from(doc.querySelectorAll('table.generic_kv_table'));
    if (!tables.length) tables = Array.from(doc.querySelectorAll('table'));
    return tables.map((t) => {
      const th = t.querySelector('th');
      let id = null;
      if (th) {
        const m = (th.textContent || '').match(/Match\s*([0-9]+)/i);
        if (m) id = String(m[1]);
      }
      return { id: id || null, html: t.outerHTML };
    });
  }
  \<close>
\<close>

record raw_block =
  blockId :: "jsstr option"
  blockHtml :: jsstr

definition extractTablesFromHtml :: "'o runtime \<Rightarrow> jsstr \<Rightarrow> raw_block list" where
  "extractTablesFromHtml rt bigHtml =
     (let doc = parseTables rt bigHtml;
          tables = (if filter marked doc = [] then doc else filter marked doc)
      in map (\<lambda>t. \<lparr>blockId = (case th t of None \<Rightarrow> None | Some h \<Rightarrow> matchId h),
                    blockHtml = outerHTML t\<rparr>) tables)"

text \<open>
  \<^verbatim>\<open>parseMatchHtml(html, opts)\<close>. Its one caller passes the two parsing flags, so that
  \<^verbatim>\<open>cfg.canonicalMap\<close> is \<^verbatim>\<open>CANONICAL_MAP\<close>.
  \<^verbatim>\<open>
    const table =
      doc.querySelector('table.generic_kv_table') || doc.querySelector('table');
    if (!table) return null;
    const out = {};
    const th = table.querySelector('th');
    if (th) {
      const header = (th.textContent || '').trim();
      const m = header.match(/Match\s*([0-9]+)/i);
      if (m) out.match_id = String(m[1]);
      else out.match_title = header;
    }
    table.querySelectorAll('tr').forEach((r) => {
      const cells = r.querySelectorAll('td');
      if (cells.length !== 2) return;
      const rawKey = (cells[0].textContent || '').trim();
      const rawVal = (cells[1].textContent || '').trim();
      const keyNorm = normalizeKey(rawKey);
      const keyCanon = cfg.canonicalMap[keyNorm] || keyNorm;
      out[keyCanon] = parseValue(rawVal, cfg);
    });
    return out;
  \<close>
\<close>

record parse_cfg = parse_opts +
  canonicalMap :: "jsstr jsobject"

definition selectTable :: "dom_table list \<Rightarrow> dom_table option" where
  "selectTable doc =
     (case find marked doc of
        Some t \<Rightarrow> Some t
      | None \<Rightarrow> (case doc of [] \<Rightarrow> None | t # _ \<Rightarrow> Some t))"

definition headerFields :: "dom_table \<Rightarrow> 'o jsvalue jsobject" where
  "headerFields table =
     (case th table of
        None \<Rightarrow> []
      | Some h \<Rightarrow>
          let header = trim h in
          (case matchId header of
             Some ds \<Rightarrow> [(js ''match_id'', JStr ds)]
           | None \<Rightarrow> [(js ''match_title'', JStr header)]))"

definition fieldKey :: "'o runtime \<Rightarrow> jsstr jsobject \<Rightarrow> jsstr \<Rightarrow> jsstr" where
  "fieldKey rt cmap rawKey = propertyKey rt (canonicalKey cmap (normalizeKey rawKey))"

fun parseRows ::
  "'o runtime \<Rightarrow> parse_cfg \<Rightarrow> jsstr list list \<Rightarrow> 'o jsvalue jsobject \<Rightarrow> error + 'o jsvalue jsobject"
where
  "parseRows rt cfg [] out = Inr out"
| "parseRows rt cfg (cells # rest) out =
     (if length cells \<noteq> 2 then parseRows rt cfg rest out
      else
        let rawKey = trim (cells ! 0); rawVal = trim (cells ! 1) in
        (case parseValue rt (Some rawVal) cfg of
           Inl e \<Rightarrow> Inl e
         | Inr v \<Rightarrow> parseRows rt cfg rest (setProp out (fieldKey rt (canonicalMap cfg) rawKey) v)))"

definition parseMatchHtml ::
  "'o runtime \<Rightarrow> jsstr \<Rightarrow> parse_opts \<Rightarrow> error + 'o jsvalue jsobject option" where
  "parseMatchHtml rt html opts =
     (let cfg = \<lparr>parseDates = parseDates opts, parseNumbers = parseNumbers opts,
                 canonicalMap = CANONICAL_MAP\<rparr>
      in case selectTable (parseTables rt html) of
           None \<Rightarrow> Inr None
         | Some table \<Rightarrow>
             (case parseRows rt cfg (trs table) (headerFields table) of
                Inl e \<Rightarrow> Inl e
              | Inr out \<Rightarrow> Inr (Some out)))"

section \<open>Deduplicating aggregator\<close>

text \<open>
  The body of the loop over the tables of one page, after \<^verbatim>\<open>parseMatchHtml\<close>:
  \<^verbatim>\<open>
    if (t.id && !parsed.match_id) parsed.match_id = String(t.id);
    const key = cfg.dedupe && parsed.match_id ? 'id:' + parsed.match_id : '';
    if (key && seen.has(key)) continue;
    if (key) seen.add(key);
    results.push(parsed);
    added++;
  \<close>
\<close>

record pipeline_cfg = parse_opts +
  maxPages :: nat
  dedupe :: bool

record 'o aggregate =
  results :: "'o jsvalue jsobject list"
  seen :: "jsstr set"

fun propToString :: "'o runtime \<Rightarrow> 'o jsvalue jsprop \<Rightarrow> jsstr" where
  "propToString rt Undefined = js ''undefined''"
| "propToString rt (Own v) = toString rt v"
| "propToString rt (Inherited k) = inheritedToString rt k"

definition injectId :: "jsstr option \<Rightarrow> 'o jsvalue jsobject \<Rightarrow> 'o jsvalue jsobject" where
  "injectId tid parsed =
     (case tid of
        None \<Rightarrow> parsed
      | Some i \<Rightarrow>
          if i \<noteq> [] \<and> \<not> truthyProp (getProp parsed (js ''match_id''))
          then setProp parsed (js ''match_id'') (JStr i)
          else parsed)"

definition dedupeKey :: "'o runtime \<Rightarrow> bool \<Rightarrow> 'o jsvalue jsobject \<Rightarrow> jsstr" where
  "dedupeKey rt dd parsed =
     (if dd \<and> truthyProp (getProp parsed (js ''match_id''))
      then js ''id:'' @ propToString rt (getProp parsed (js ''match_id''))
      else [])"

definition admit ::
  "'o runtime \<Rightarrow> bool \<Rightarrow> jsstr option \<Rightarrow> 'o jsvalue jsobject \<Rightarrow> 'o aggregate \<Rightarrow> 'o aggregate" where
  "admit rt dd tid parsed0 agg =
     (let parsed = injectId tid parsed0;
          key = dedupeKey rt dd parsed
      in if key \<noteq> [] \<and> key \<in> seen agg then agg
         else agg\<lparr>results := results agg @ [parsed],
                  seen := (if key \<noteq> [] then insert key (seen agg) else seen agg)\<rparr>)"

fun admitAll ::
  "'o runtime \<Rightarrow> 'x pipeline_cfg_scheme \<Rightarrow> raw_block list \<Rightarrow> 'o aggregate \<Rightarrow> error + 'o aggregate"
where
  "admitAll rt cfg [] agg = Inr agg"
| "admitAll rt cfg (t # ts) agg =
     (case parseMatchHtml rt (blockHtml t)
             \<lparr>parseDates = parseDates cfg, parseNumbers = parseNumbers cfg\<rparr> of
        Inl e \<Rightarrow> Inl e
      | Inr None \<Rightarrow> admitAll rt cfg ts agg
      | Inr (Some parsed) \<Rightarrow> admitAll rt cfg ts (admit rt (dedupe cfg) (blockId t) parsed agg))"

text \<open>
  What the aggregate keeps true: the keys of the admitted records are pairwise different,
  and all marked as seen.
\<close>

definition admittedKeys :: "'o runtime \<Rightarrow> 'o aggregate \<Rightarrow> jsstr list" where
  "admittedKeys rt agg = filter (\<lambda>k. k \<noteq> []) (map (dedupeKey rt True) (results agg))"

definition dedupeInvariant :: "'o runtime \<Rightarrow> 'o aggregate \<Rightarrow> bool" where
  "dedupeInvariant rt agg \<longleftrightarrow>
     distinct (admittedKeys rt agg) \<and> set (admittedKeys rt agg) \<subseteq> seen agg"

section \<open>Paginated fetcher\<close>

text \<open>
  One call of \<^verbatim>\<open>fetch\<close> either rejects, or resolves to a response with a status and a
  body; the body is given by the result of \<^verbatim>\<open>JSON.parse(await res.text())\<close>, \<open>None\<close>
  when that throws. For the page loop the parsed value is \<open>None\<close> when it is falsy, and the
  page otherwise. The fetch capability of a page request maps the number of the call
  (which is the value of \<^verbatim>\<open>attempt\<close>, counted up on every path that does not return)
  to what the call yields.
\<close>

datatype 'j response = Rejected | Response nat "'j option"

datatype event = Fetch | Wait nat

datatype 'j attempt = Returned 'j | Throttled | Thrown error

definition maxRetries :: nat where
  "maxRetries = 5"

definition retryBaseDelay :: nat where
  "retryBaseDelay = 1000"

definition isOk :: "nat \<Rightarrow> bool" where
  "isOk status \<longleftrightarrow> 200 \<le> status \<and> status \<le> 299"

text \<open>
  The body of the \<^verbatim>\<open>try\<close> block:
  \<^verbatim>\<open>
    const res = await fetch(urlStr, ...);
    if (!res.ok) {
      if (res.status === 429 || res.status === 503) {
        const backoff = retryBaseDelay * Math.pow(2, attempt);
        await wait(backoff);
        attempt++;
        continue;
      }
      throw new Error('HTTP ' + res.status);
    }
    return JSON.parse(await res.text());
  \<close>
\<close>

definition isThrottle :: "'j response \<Rightarrow> bool" where
  "isThrottle r = (case r of Rejected \<Rightarrow> False | Response status body \<Rightarrow> status = 429 \<or> status = 503)"

definition tryFetch :: "'j response \<Rightarrow> 'j attempt" where
  "tryFetch r =
     (case r of
        Rejected \<Rightarrow> Thrown NetworkError
      | Response status body \<Rightarrow>
          if \<not> isOk status then
            (if status = 429 \<or> status = 503 then Throttled else Thrown (HttpError status))
          else (case body of None \<Rightarrow> Thrown BodyError | Some j \<Rightarrow> Returned j))"

text \<open>
  \<^verbatim>\<open>
    let attempt = 0;
    while (attempt <= maxRetries) {
      try { ... } catch (err) {
        attempt++;
        if (attempt > maxRetries) throw err;
        const backoff = retryBaseDelay * Math.pow(2, attempt - 1);
        await wait(backoff);
      }
    }
    throw new Error('unreachable');
  \<close>
  The result comes with the calls and waits made, in order.
\<close>

function safeFetchFrom ::
  "(nat \<Rightarrow> 'j response) \<Rightarrow> nat \<Rightarrow> event list \<Rightarrow> (error + 'j) \<times> event list" where
  "safeFetchFrom fetch attempt evs =
     (if attempt \<le> maxRetries then
        (case tryFetch (fetch attempt) of
           Returned j \<Rightarrow> (Inr j, evs @ [Fetch])
         | Throttled \<Rightarrow>
             safeFetchFrom fetch (attempt + 1)
               (evs @ [Fetch, Wait (retryBaseDelay * 2 ^ attempt)])
         | Thrown err \<Rightarrow>
             if attempt + 1 > maxRetries then (Inl err, evs @ [Fetch])
             else safeFetchFrom fetch (attempt + 1)
                    (evs @ [Fetch, Wait (retryBaseDelay * 2 ^ (attempt + 1 - 1))]))
      else (Inl Unreachable, evs))"
  by pat_completeness auto
termination
  by (relation "measure (\<lambda>(fetch, attempt, evs). maxRetries + 1 - attempt)") auto

declare safeFetchFrom.simps [simp del]

definition safeFetch :: "(nat \<Rightarrow> 'j response) \<Rightarrow> (error + 'j) \<times> event list" where
  "safeFetch fetch = safeFetchFrom fetch 0 []"

text \<open>
  The page loop. The service is a function from the page counter and the token sent to
  the fetch capability of that request.
  \<^verbatim>\<open>
    while (page < cfg.maxPages) {
      page++;
      ...
      const json = await safeFetch(url.toString());
      if (!json || !json.success) break;
      const tables = extractTablesFromHtml(json.html || '');
      for (const t of tables) { ... }
      const newToken = json.continue_token || null;
      if (!newToken || newToken === token) break;
      token = newToken;
      await wait(cfg.delay);
    }
  \<close>
\<close>

record page_json =
  success :: bool
  html :: "jsstr option"
  continue_token :: "jsstr option"

type_synonym service = "nat \<Rightarrow> jsstr option \<Rightarrow> nat \<Rightarrow> page_json option response"

definition newTokenOf :: "page_json \<Rightarrow> jsstr option" where
  "newTokenOf json =
     (case continue_token json of None \<Rightarrow> None | Some t \<Rightarrow> if t \<noteq> [] then Some t else None)"

definition htmlOf :: "page_json \<Rightarrow> jsstr" where
  "htmlOf json = (case html json of None \<Rightarrow> [] | Some h \<Rightarrow> h)"

definition processPage ::
  "'o runtime \<Rightarrow> 'x pipeline_cfg_scheme \<Rightarrow> page_json \<Rightarrow> 'o aggregate \<Rightarrow> error + 'o aggregate"
where
  "processPage rt cfg json agg = admitAll rt cfg (extractTablesFromHtml rt (htmlOf json)) agg"

definition fetchPage :: "service \<Rightarrow> nat \<Rightarrow> jsstr option \<Rightarrow> error + page_json option" where
  "fetchPage service page token = fst (safeFetch (service page token))"

function paginate ::
  "'o runtime \<Rightarrow> 'x pipeline_cfg_scheme \<Rightarrow> service \<Rightarrow> nat \<Rightarrow> jsstr option \<Rightarrow> 'o aggregate
     \<Rightarrow> error + nat \<times> 'o aggregate" where
  "paginate rt cfg service page token agg =
     (if page < maxPages cfg then
        (case fetchPage service (page + 1) token of
           Inl e \<Rightarrow> Inl e
         | Inr None \<Rightarrow> Inr (page + 1, agg)
         | Inr (Some json) \<Rightarrow>
             if \<not> success json then Inr (page + 1, agg)
             else
               (case processPage rt cfg json agg of
                  Inl e \<Rightarrow> Inl e
                | Inr agg' \<Rightarrow>
                    if newTokenOf json = None \<or> newTokenOf json = token
                    then Inr (page + 1, agg')
                    else paginate rt cfg service (page + 1) (newTokenOf json) agg'))
      else Inr (page, agg))"
  by pat_completeness auto
termination
  by (relation "measure (\<lambda>(rt, cfg, service, page, token, agg). maxPages cfg - page)") auto

declare paginate.simps [simp del]

section \<open>Tabular serializer\<close>

definition ORDERED_COLUMNS :: "jsstr list" where
  "ORDERED_COLUMNS = map js
     [''match_id'', ''match_title'', ''type'', ''season_id'',
      ''match_creation_time'', ''connection_time'', ''join_time'', ''joined_after_match_start'',
      ''time_in_queue'', ''match_end_time'', ''time_left_match'',
      ''game_mode'', ''map_index'', ''datacenter'', ''match_ip'', ''match_port'', ''match_size'',
      ''match_status'', ''match_duration'', ''match_flags'', ''match_included_bots'',
      ''red_team_final_score'', ''blu_team_final_score'', ''winning_team'', ''win_reason'',
      ''party_id_at_join'', ''team_at_join'', ''ping_estimate_at_join'',
      ''result_partyid'', ''result_team'', ''result_score'', ''result_ping'',
      ''result_player_flags'', ''result_displayed_rating'', ''result_displayed_rating_change'',
      ''result_rank'',
      ''classes_played'', ''kills'', ''deaths'', ''damage'', ''healing'', ''support'',
      ''score_medal'', ''kills_medal'', ''damage_medal'', ''healing_medal'', ''support_medal'',
      ''leave_reason'']"

text \<open>
  \<^verbatim>\<open>
    const esc = (v) => {
      if (v === null || v === undefined) return '';
      const s = typeof v === 'object' ? JSON.stringify(v) : String(v);
      return /[",\n]/.test(s) ? '"' + s.replace(/"/g, '""') + '"' : s;
    };
  \<close>
  Of the members a row inherits, \<^verbatim>\<open>__proto__\<close> is an object, which
  \<^verbatim>\<open>JSON.stringify\<close> renders as \<^verbatim>\<open>{}\<close>, and the others are functions.
\<close>

definition isSpecial :: "jschar \<Rightarrow> bool" where
  "isSpecial c \<longleftrightarrow> c = 0x22 \<or> c = 0x2C \<or> c = 0x0A"

definition doubleQuotes :: "jsstr \<Rightarrow> jsstr" where
  "doubleQuotes s = concat (map (\<lambda>c. if c = 0x22 then [0x22, 0x22] else [c]) s)"

definition escapeText :: "jsstr \<Rightarrow> jsstr" where
  "escapeText s = (if list_ex isSpecial s then [0x22] @ doubleQuotes s @ [0x22] else s)"

fun stringify :: "'o runtime \<Rightarrow> 'o jsvalue \<Rightarrow> jsstr" where
  "stringify rt (JObj ob) = jsonStringify rt ob"
| "stringify rt v = toString rt v"

definition inheritedText :: "'o runtime \<Rightarrow> jsstr \<Rightarrow> jsstr" where
  "inheritedText rt k = (if k = js ''__proto__'' then js ''{}'' else inheritedToString rt k)"

fun esc :: "'o runtime \<Rightarrow> 'o jsvalue jsprop \<Rightarrow> jsstr" where
  "esc rt Undefined = []"
| "esc rt (Own JNull) = []"
| "esc rt (Own v) = escapeText (stringify rt v)"
| "esc rt (Inherited k) = escapeText (inheritedText rt k)"

text \<open>\<^verbatim>\<open>Array.prototype.join\<close> on an array of strings.\<close>

fun join :: "jsstr \<Rightarrow> jsstr list \<Rightarrow> jsstr" where
  "join sep [] = []"
| "join sep [x] = x"
| "join sep (x # y # ys) = x @ sep @ join sep (y # ys)"

text \<open>
  \<^verbatim>\<open>
  function buildCsv(rows, fixedOrder, verbose) {
    const fixed = fixedOrder.slice();
    const known = new Set(fixed);
    const extrasSet = new Set();
    for (const r of rows) {
      Object.keys(r).forEach((k) => {
        if (!known.has(k) && !k.startsWith('_')) extrasSet.add(k);
      });
    }
    const extras = Array.from(extrasSet).sort();
    const headers = fixed.concat(extras);
    ...
    let csv = headers.join(',') + '\n';
    for (const row of rows) {
      csv += headers.map((h) => esc(row[h])).join(',') + '\n';
    }
    return { csv, headers };
  }
  \<close>
\<close>

definition startsWithUnderscore :: "jsstr \<Rightarrow> bool" where
  "startsWithUnderscore k = (case k of [] \<Rightarrow> False | c # _ \<Rightarrow> c = 0x5F)"

definition extraKeys :: "'v jsobject list \<Rightarrow> jsstr list \<Rightarrow> jsstr list" where
  "extraKeys rows fixed =
     sort (remdups (filter (\<lambda>k. k \<notin> set fixed \<and> \<not> startsWithUnderscore k)
                      (concat (map (map fst) rows))))"

definition csvRow :: "'o runtime \<Rightarrow> jsstr list \<Rightarrow> 'o jsvalue jsobject \<Rightarrow> jsstr" where
  "csvRow rt headers row = join [0x2C] (map (\<lambda>h. esc rt (getProp row h)) headers) @ [0x0A]"

definition buildCsv ::
  "'o runtime \<Rightarrow> 'o jsvalue jsobject list \<Rightarrow> jsstr list \<Rightarrow> jsstr \<times> jsstr list" where
  "buildCsv rt rows fixedOrder =
     (let extras = extraKeys rows fixedOrder;
          headers = fixedOrder @ extras;
          csv = foldl (\<lambda>csv row. csv @ csvRow rt headers row) (join [0x2C] headers @ [0x0A]) rows
      in (csv, headers))"

text \<open>The run: the page loop from the empty state, then the serializer.\<close>

definition emptyAggregate :: "'o aggregate" where
  "emptyAggregate = \<lparr>results = [], seen = {}\<rparr>"

record summary =
  csvText :: jsstr
  pages :: nat
  matches :: nat
  columns :: nat

definition gcpdFetchAndParseAll ::
  "'o runtime \<Rightarrow> 'x pipeline_cfg_scheme \<Rightarrow> service \<Rightarrow> error + summary" where
  "gcpdFetchAndParseAll rt cfg service =
     (case paginate rt cfg service 0 None emptyAggregate of
        Inl e \<Rightarrow> Inl e
      | Inr (page, agg) \<Rightarrow>
          let (csv, headers) = buildCsv rt (results agg) ORDERED_COLUMNS
          in Inr \<lparr>csvText = csv, pages = page, matches = length (results agg),
                   columns = length headers\<rparr>)"

section \<open>A standard reader of fields\<close>

text \<open>
  The program writes fields and has no reader. This one follows the words of the
  specification (a cell, once escaped and then unescaped by a standard reader) and the
  field syntax of RFC 4180: a field that opens with a double quote runs to the closing
  quote, and a pair of double quotes inside it stands for one; any other field is taken
  as it is. \<open>None\<close>: the field is not well formed.
\<close>

fun unquoteBody :: "jsstr \<Rightarrow> jsstr option" where
  "unquoteBody [] = None"
| "unquoteBody [c] = (if c = 0x22 then Some [] else None)"
| "unquoteBody (c # d # cs) =
     (if c = 0x22 then (if d = 0x22 then map_option ((#) 0x22) (unquoteBody cs) else None)
      else map_option ((#) c) (unquoteBody (d # cs)))"

definition csvUnescape :: "jsstr \<Rightarrow> jsstr option" where
  "csvUnescape field =
     (case field of [] \<Rightarrow> Some [] | c # cs \<Rightarrow> if c = 0x22 then unquoteBody cs else Some field)"

section \<open>A sample runtime and service\<close>

text \<open>
  A small runtime and a small service, on which the definitions are run. The runtime
  prints the whole part of a non-negative number, knows no date, and parses three
  documents of one table each: match 100 with the row \<^verbatim>\<open>Map Index: 7\<close>, match 200 with
  the row \<^verbatim>\<open>Winning Team: Yes\<close>, and a table with no header and the row
  \<^verbatim>\<open>Match ID: 0\<close>.
\<close>

function showNat :: "nat \<Rightarrow> jsstr" where
  "showNat n = (if n < 10 then [of_nat (48 + n)] else showNat (n div 10) @ [of_nat (48 + n mod 10)])"
  by pat_completeness auto
termination
  by (relation "measure id") auto

declare showNat.simps [simp del]

definition html100 :: jsstr where
  "html100 = js ''<table id=a>''"

definition html200 :: jsstr where
  "html200 = js ''<table id=b>''"

definition htmlZero :: jsstr where
  "htmlZero = js ''<table id=c>''"

definition table100 :: dom_table where
  "table100 = \<lparr>marked = True, th = Some (js ''Match 100''),
     trs = [[], [js ''Map Index'', js ''7'']], outerHTML = html100\<rparr>"

definition table200 :: dom_table where
  "table200 = \<lparr>marked = True, th = Some (js ''Match 200''),
     trs = [[], [js ''Winning Team'', js ''Yes'']], outerHTML = html200\<rparr>"

definition tableZero :: dom_table where
  "tableZero = \<lparr>marked = False, th = None,
     trs = [[js ''Match ID'', js ''0'']], outerHTML = htmlZero\<rparr>"

definition sampleRuntime :: "unit runtime" where
  "sampleRuntime =
     \<lparr>numberToString =
        (\<lambda>n. case n of Finite r \<Rightarrow> showNat (nat \<lfloor>r\<rfloor>) | NegZero \<Rightarrow> js ''0''
                 | Infinity negative \<Rightarrow> if negative then js ''-Infinity'' else js ''Infinity''),
      objectToString = (\<lambda>ob. js ''[object Object]''),
      jsonStringify = (\<lambda>ob. js ''[1,2]''),
      inheritedToString = (\<lambda>k. js ''function () { [native code] }''),
      newDateISO = (\<lambda>s. None),
      parseTables = (\<lambda>h. if h = html100 then [table100]
                          else if h = html200 then [table200]
                          else if h = htmlZero then [tableZero]
                          else [])\<rparr>"

definition sampleCfg :: pipeline_cfg where
  "sampleCfg = \<lparr>parseDates = True, parseNumbers = True, maxPages = 2000, dedupe = True\<rparr>"

definition pageOf :: "jsstr \<Rightarrow> string \<Rightarrow> page_json option response" where
  "pageOf h t =
     Response 200 (Some (Some \<lparr>success = True, html = Some h, continue_token = Some (js t)\<rparr>))"

text \<open>
  Three pages: the first two show match 100, the third shows match 200 and repeats the
  token of the second. The second page is throttled twice before it is served.
\<close>

definition sampleService :: service where
  "sampleService page token attempt =
     (if page = 1 then pageOf html100 ''t1''
      else if page = 2 then (if attempt < 2 then Response 429 None else pageOf html100 ''t2'')
      else pageOf html200 ''t2'')"

definition lastPageService :: service where
  "lastPageService page token attempt =
     Response 200 (Some (Some \<lparr>success = True, html = Some html100, continue_token = None\<rparr>))"

definition stoppedService :: service where
  "stoppedService page token attempt =
     Response 200
       (Some (Some \<lparr>success = False, html = Some html100, continue_token = Some (js ''t1'')\<rparr>))"

definition zeroService :: service where
  "zeroService page token attempt = pageOf htmlZero ''t1''"

definition rec100 :: "unit jsvalue jsobject" where
  "rec100 = [(js ''match_id'', JStr (js ''100'')), (js ''map_index'', JNum (Finite 7))]"

definition rec200 :: "unit jsvalue jsobject" where
  "rec200 = [(js ''match_id'', JStr (js ''200'')), (js ''winning_team'', JBool True)]"

definition recZero :: "unit jsvalue jsobject" where
  "recZero = [(js ''match_id'', JNum (Finite 0))]"

definition page100 :: "string \<Rightarrow> page_json" where
  "page100 t = \<lparr>success = True, html = Some html100, continue_token = Some (js t)\<rparr>"

definition page200 :: "string \<Rightarrow> page_json" where
  "page200 t = \<lparr>success = True, html = Some html200, continue_token = Some (js t)\<rparr>"

section \<open>Properties of the field normalizer\<close>

lemma isKeyChar_isWord: "isKeyChar c \<Longrightarrow> isWord c"
  by (auto simp: isKeyChar_def isWord_def)

lemma isWord_not_isSpace: "isWord c \<Longrightarrow> \<not> isSpace c"
  by (auto simp: isWord_def isUpper_def isLower_def isDigit_def isSpace_def)

lemma isWord_not_isSeparator: "isWord c \<Longrightarrow> \<not> isSeparator c"
  by (auto simp: isWord_def isUpper_def isLower_def isDigit_def isSeparator_def)

lemma isUpper_not_key: "isUpper c \<Longrightarrow> \<not> isLower c \<and> \<not> isDigit c \<and> c \<noteq> 0x5F"
  by (auto simp: isUpper_def isLower_def isDigit_def word_le_nat_alt)

lemma isWord_not_nbsp: "isWord c \<Longrightarrow> c \<noteq> 0xA0"
  by (auto simp: isWord_def isUpper_def isLower_def isDigit_def)

lemma isKeyChar_not_isUpper: "isKeyChar c \<Longrightarrow> \<not> isUpper c"
  using isUpper_not_key [of c] by (auto simp: isKeyChar_def)

lemma isSpace_not_isUpper: "isSpace c \<Longrightarrow> \<not> isUpper c"
  by (auto simp: isSpace_def isUpper_def)

lemma lowerChar_isUpper: "isUpper c \<Longrightarrow> isLower (lowerChar c)"
proof -
  assume u: "isUpper c"
  then have b: "65 \<le> unat c" "unat c \<le> 90"
    by (simp_all add: isUpper_def word_le_nat_alt)
  then have "unat (c + 0x20) = unat c + 32"
    by (simp add: unat_word_ariths)
  with b have "97 \<le> unat (c + 0x20)" "unat (c + 0x20) \<le> 122"
    by simp_all
  then have "isLower (c + 0x20)"
    by (simp add: isLower_def word_le_nat_alt)
  with u show ?thesis
    by (simp add: lowerChar_def)
qed

lemma lowerChar_isWord: "isWord c \<Longrightarrow> isKeyChar (lowerChar c)"
proof (cases "isUpper c")
  case True
  then show ?thesis
    using lowerChar_isUpper [of c] by (simp add: isKeyChar_def)
next
  case False
  assume "isWord c"
  with False show ?thesis
    by (auto simp: lowerChar_def isKeyChar_def isWord_def)
qed

lemma lowerChar_isSpace: "isSpace c \<Longrightarrow> lowerChar c = c"
  by (simp add: lowerChar_def isSpace_not_isUpper)

lemma replaceRuns_set:
  "x \<in> set (replaceRuns P r cs) \<Longrightarrow> x = r \<or> (x \<in> set cs \<and> \<not> P x)"
proof (induction P r cs rule: replaceRuns.induct)
  case (1 P r)
  then show ?case by simp
next
  case (2 P r c cs)
  show ?case
  proof (cases "P c")
    case True
    with 2 have "x = r \<or> (x \<in> set (dropWhile P cs) \<and> \<not> P x)"
      by auto
    then show ?thesis
      by (auto dest: set_dropWhileD)
  next
    case False
    with 2 show ?thesis by auto
  qed
qed

lemma replaceRuns_none: "\<forall>c \<in> set cs. \<not> P c \<Longrightarrow> replaceRuns P r cs = cs"
  by (induction cs) simp_all

lemma trim_no_space: "\<forall>c \<in> set s. \<not> isSpace c \<Longrightarrow> trim s = s"
proof -
  assume a: "\<forall>c \<in> set s. \<not> isSpace c"
  then have "dropWhile isSpace s = s"
    by (cases s) simp_all
  moreover from a have "dropWhile isSpace (rev s) = rev s"
    by (cases "rev s") (simp, metis dropWhile_eq_self_iff hd_in_set list.discI set_rev)
  ultimately show ?thesis
    by (simp add: trim_def)
qed

lemma normalizeKey_chars: "c \<in> set (normalizeKey label) \<Longrightarrow> isKeyChar c"
proof -
  assume "c \<in> set (normalizeKey label)"
  then have "c = 0x5F \<or>
      (c \<in> set (toLowerCase (filter (\<lambda>c. isWord c \<or> isSpace c)
           (replaceRuns isSeparator 0x20
             (trim (map (\<lambda>c. if c = 0xA0 then 0x20 else c) label))))) \<and> \<not> isSpace c)"
    unfolding normalizeKey_def by (rule replaceRuns_set)
  then show ?thesis
  proof
    assume "c = 0x5F"
    then show ?thesis by (simp add: isKeyChar_def)
  next
    assume "c \<in> set (toLowerCase (filter (\<lambda>c. isWord c \<or> isSpace c)
           (replaceRuns isSeparator 0x20
             (trim (map (\<lambda>c. if c = 0xA0 then 0x20 else c) label))))) \<and> \<not> isSpace c"
    then obtain d where d: "c = lowerChar d" "isWord d \<or> isSpace d" and ns: "\<not> isSpace c"
      by (auto simp: toLowerCase_def)
    show ?thesis
    proof (cases "isSpace d")
      case True
      with d ns show ?thesis by (simp add: lowerChar_isSpace)
    next
      case False
      with d show ?thesis by (simp add: lowerChar_isWord)
    qed
  qed
qed

lemma normalizeKey_fixes_keys:
  assumes "\<forall>c \<in> set s. isKeyChar c"
  shows "normalizeKey s = s"
proof -
  from assms have w: "\<forall>c \<in> set s. isWord c"
    by (simp add: isKeyChar_isWord)
  then have 1: "map (\<lambda>c. if c = 0xA0 then 0x20 else c) s = s"
    by (simp add: map_idI isWord_not_nbsp)
  from w have 2: "trim s = s"
    by (simp add: trim_no_space isWord_not_isSpace)
  from w have 3: "replaceRuns isSeparator 0x20 s = s"
    by (simp add: replaceRuns_none isWord_not_isSeparator)
  from w have 4: "filter (\<lambda>c. isWord c \<or> isSpace c) s = s"
    by simp
  from assms have 5: "toLowerCase s = s"
    by (simp add: toLowerCase_def map_idI lowerChar_def isKeyChar_not_isUpper)
  from w have 6: "replaceRuns isSpace 0x5F s = s"
    by (simp add: replaceRuns_none isWord_not_isSpace)
  show ?thesis
    by (simp add: normalizeKey_def 1 2 3 4 5 6)
qed

text \<open>
  Claim C8. \<^verbatim>\<open>normalizeKey\<close> is idempotent: for every label \<open>L\<close>,
  \<^verbatim>\<open>normalizeKey(normalizeKey(L))\<close> equals \<^verbatim>\<open>normalizeKey(L)\<close>.
\<close>

theorem normalizeKey_idempotent: "normalizeKey (normalizeKey L) = normalizeKey L"
  by (rule normalizeKey_fixes_keys) (simp add: normalizeKey_chars)

section \<open>Properties of the number parser\<close>

lemma floor_rat_numeral: "\<lfloor>numeral a / numeral b :: rat\<rfloor> = numeral a div numeral b"
  by (metis floor_divide_of_int_eq of_int_numeral)

lemma scaleBy_powi: "scaleBy x k = x * 2 powi k"
proof (cases "0 \<le> k")
  case True
  then show ?thesis
    by (simp add: scaleBy_def power_int_def)
next
  case False
  then have "(2::rat) powi k = 1 / 2 ^ nat (- k)"
    by (simp add: power_int_def power_one_over [symmetric] inverse_eq_divide)
  with False show ?thesis
    by (simp add: scaleBy_def)
qed

lemma binaryExponent_bounds:
  "0 < a \<Longrightarrow> 2 powi binaryExponent a \<le> a \<and> a < 2 powi (binaryExponent a + 1)"
proof (induction a rule: binaryExponent.induct)
  case (1 a)
  show ?case
  proof (cases "2 \<le> a")
    case True
    with 1 have ih: "2 powi binaryExponent (a / 2) \<le> a / 2 \<and> a / 2 < 2 powi (binaryExponent (a / 2) + 1)"
      by simp
    from True 1 have e: "binaryExponent a = binaryExponent (a / 2) + 1"
      by (subst binaryExponent.simps) simp
    from ih show ?thesis
      unfolding e by (simp add: power_int_add)
  next
    case False
    show ?thesis
    proof (cases "a < 1")
      case True
      with 1 False have ih: "2 powi binaryExponent (a * 2) \<le> a * 2 \<and> a * 2 < 2 powi (binaryExponent (a * 2) + 1)"
        by simp
      from True False 1 have e: "binaryExponent a = binaryExponent (a * 2) - 1"
        by (subst binaryExponent.simps) simp
      from ih show ?thesis
        unfolding e by (simp add: power_int_add power_int_diff)
    next
      case f: False
      with False 1 have "binaryExponent a = 0"
        by (subst binaryExponent.simps) simp
      with f False show ?thesis
        by simp
    qed
  qed
qed

lemma roundHalfEven_of_int: "roundHalfEven (of_int k) = k"
  by (simp add: roundHalfEven_def)

lemma roundHalfEven_ge_floor: "\<lfloor>m\<rfloor> \<le> roundHalfEven m"
  by (simp add: roundHalfEven_def Let_def)


lemma powi_less_exp: "(2::rat) powi m < 2 powi n \<Longrightarrow> m < n"
proof (rule ccontr)
  assume l: "(2::rat) powi m < 2 powi n" and "\<not> m < n"
  then have "n \<le> m"
    by simp
  then have "(2::rat) powi n \<le> 2 powi m"
    by (intro power_int_increasing) simp_all
  with l show False
    by simp
qed

lemma roundPositive_integer:
  assumes "0 < k" and "k < 2 ^ 53"
  shows "roundPositive (of_int k) = Finite (of_int k)"
proof -
  let ?a = "of_int k :: rat"
  let ?e = "binaryExponent ?a"
  from assms(1) have a1: "1 \<le> ?a"
    by simp
  from assms(2) have "?a < of_int (2 ^ 53)"
    by (simp only: of_int_less_iff)
  then have a2: "?a < 2 ^ 53"
    by simp
  note a = a1 a2
  then have b: "2 powi ?e \<le> ?a" "?a < 2 powi (?e + 1)"
    using binaryExponent_bounds [of ?a] by simp_all
  from b(1) a(2) have "(2::rat) powi ?e < 2 powi 53"
    by simp
  then have hi: "?e \<le> 52"
    using powi_less_exp [of ?e 53] by simp
  from b(2) a(1) have "(2::rat) powi 0 < 2 powi (?e + 1)"
    by simp
  then have lo: "0 \<le> ?e"
    using powi_less_exp [of 0 "?e + 1"] by simp
  from hi lo have q: "max (?e - 52) (- 1074) = ?e - 52"
    by simp
  have "scaleBy ?a (- (?e - 52)) = of_int (k * 2 ^ nat (52 - ?e))"
    using hi by (simp add: scaleBy_def)
  then have n: "roundHalfEven (scaleBy ?a (- (?e - 52))) = k * 2 ^ nat (52 - ?e)"
    by (simp only: roundHalfEven_of_int)
  have r: "scaleBy (of_int (k * 2 ^ nat (52 - ?e))) (?e - 52) = ?a"
    using hi by (simp add: scaleBy_def)
  have "roundPositive ?a = (if 2 ^ 1024 \<le> ?a then Infinity False else Finite ?a)"
    unfolding roundPositive_def Let_def q n r ..
  moreover have "?a < 2 ^ 1024"
    using a(2) by (rule less_trans) simp
  ultimately show ?thesis
    by simp
qed

lemma roundPositive_overflow:
  assumes "2 ^ 1024 \<le> a"
  shows "roundPositive a = Infinity False"
proof -
  let ?e = "binaryExponent a"
  from assms have pos: "0 < a"
    by (rule less_le_trans [rotated]) simp
  then have b: "2 powi ?e \<le> a" "a < 2 powi (?e + 1)"
    using binaryExponent_bounds [of a] by simp_all
  from assms b(2) have "(2::rat) powi 1024 < 2 powi (?e + 1)"
    by simp
  then have e: "1024 \<le> ?e"
    using powi_less_exp [of 1024 "?e + 1"] by simp
  then have q: "max (?e - 52) (- 1074) = ?e - 52"
    by simp
  let ?m = "scaleBy a (- (?e - 52))"
  let ?n = "roundHalfEven ?m"
  have "?m = a * 2 powi (52 - ?e)"
    by (simp add: scaleBy_powi)
  moreover have "(2::rat) powi ?e * 2 powi (52 - ?e) = 2 ^ 52"
    by (simp flip: power_int_add)
  ultimately have "2 ^ 52 \<le> ?m"
    using b(1) by (metis mult_right_mono zero_le_numeral zero_le_power_int)
  then have "of_int (2 ^ 52) \<le> ?m"
    by simp
  then have "2 ^ 52 \<le> \<lfloor>?m\<rfloor>"
    by (simp only: le_floor_iff)
  then have n: "2 ^ 52 \<le> ?n"
    using roundHalfEven_ge_floor [of ?m] by (rule order_trans)
  then have "(of_int (2 ^ 52) :: rat) \<le> of_int ?n"
    by (simp only: of_int_le_iff)
  then have "(2 ^ 52 :: rat) \<le> of_int ?n"
    by simp
  then have A: "(2 ^ 52 :: rat) * 2 powi (?e - 52) \<le> of_int ?n * 2 powi (?e - 52)"
    by (intro mult_right_mono) simp_all
  have B: "(2::rat) powi ?e = 2 ^ 52 * 2 powi (?e - 52)"
    using power_int_add [of "2::rat" 52 "?e - 52"] by simp
  from e have "(2::rat) powi 1024 \<le> 2 powi ?e"
    by (intro power_int_increasing) simp_all
  then have "(2::rat) ^ 1024 \<le> 2 powi ?e"
    by simp
  also note B
  also note A
  finally have "2 ^ 1024 \<le> scaleBy (of_int ?n) (?e - 52)"
    by (simp only: scaleBy_powi)
  moreover have "roundPositive a =
      (if 2 ^ 1024 \<le> scaleBy (of_int ?n) (?e - 52) then Infinity False
       else Finite (scaleBy (of_int ?n) (?e - 52)))"
    unfolding roundPositive_def Let_def q ..
  ultimately show ?thesis
    by (simp only: if_True)
qed

lemmas number_eval = toNumber_def roundPositive_def binaryExponent.simps scaleBy_def
  roundHalfEven_def Let_def floor_rat_numeral

lemma toNumber_integer:
  assumes "n < 2 ^ 53"
  shows "toNumber negative (of_nat n) =
           (if negative then negateNumber (Finite (of_nat n)) else Finite (of_nat n))"
proof (cases "n = 0")
  case True
  then show ?thesis
    by (simp add: toNumber_def)
next
  case False
  from assms have "int n < 2 ^ 53"
    by (metis of_nat_less_iff of_nat_numeral of_nat_power)
  with False have "roundPositive (of_int (int n)) = Finite (of_int (int n))"
    by (intro roundPositive_integer) simp_all
  with False show ?thesis
    by (simp add: toNumber_def)
qed

lemma toNumber_overflow:
  assumes "2 ^ 1024 \<le> n"
  shows "toNumber negative (of_nat n) = Infinity negative"
proof -
  from assms have "(of_nat (2 ^ 1024) :: rat) \<le> of_nat n"
    by (simp only: of_nat_le_iff)
  then have a: "(2 ^ 1024 :: rat) \<le> of_nat n"
    by simp
  then have "roundPositive (of_nat n) = Infinity False"
    by (rule roundPositive_overflow)
  moreover from a have "(of_nat n :: rat) \<noteq> 0"
    by auto
  ultimately show ?thesis
    by (cases negative) (simp_all add: toNumber_def)
qed

lemma parseInt10_small:
  "digitsValue (unsignedPart r) < 2 ^ 53 \<Longrightarrow>
   parseInt10 r = (if isNegative r then negateNumber (Finite (of_nat (digitsValue (unsignedPart r))))
                   else Finite (of_nat (digitsValue (unsignedPart r))))"
  unfolding parseInt10_def by (rule toNumber_integer)

lemma parseInt10_overflow:
  "2 ^ 1024 \<le> digitsValue (unsignedPart r) \<Longrightarrow> parseInt10 r = Infinity (isNegative r)"
  unfolding parseInt10_def by (rule toNumber_overflow)

section \<open>Properties of the value parser\<close>

lemma trim_all_space: "list_all isSpace r \<Longrightarrow> trim r = []"
proof -
  assume "list_all isSpace r"
  then have d: "dropWhile isSpace r = []"
    by (simp add: list_all_iff)
  show ?thesis
    unfolding trim_def d by simp
qed

lemma lowerChar_not_space: "\<not> isSpace (lowerChar c) \<Longrightarrow> \<not> isSpace c"
  using lowerChar_isSpace [of c] by auto

lemma isDigit_isWord: "isDigit c \<Longrightarrow> isWord c"
  by (simp add: isWord_def)

lemma isDigit_not_isSpace: "isDigit c \<Longrightarrow> \<not> isSpace c"
  by (simp add: isDigit_isWord isWord_not_isSpace)

lemma isDigit_not_isUpper: "isDigit c \<Longrightarrow> \<not> isUpper c"
  using isUpper_not_key [of c] by auto

lemma toLowerCase_no_space:
  assumes "toLowerCase r = w" and "\<forall>c \<in> set w. \<not> isSpace c"
  shows "trim r = r"
proof (rule trim_no_space, rule ballI)
  fix c assume "c \<in> set r"
  then have "lowerChar c \<in> set w"
    using assms(1) by (auto simp: toLowerCase_def)
  with assms(2) show "\<not> isSpace c"
    by (auto dest: lowerChar_not_space)
qed

lemma yes_no_space: "\<forall>c \<in> set (js ''yes''). \<not> isSpace c"
  by (simp add: js_def isSpace_def)

lemma no_no_space: "\<forall>c \<in> set (js ''no''). \<not> isSpace c"
  by (simp add: js_def isSpace_def)

lemma unsignedPart_cases:
  "s = unsignedPart s \<and> \<not> isNegative s \<or> s = 0x2D # unsignedPart s \<and> isNegative s"
  by (cases s) (auto simp: unsignedPart_def isNegative_def)

lemma isIntegerPattern_chars:
  assumes "isIntegerPattern r" and "c \<in> set r"
  shows "c = 0x2D \<or> isDigit c"
proof -
  from assms(1) have "list_all isDigit (unsignedPart r)"
    by (simp add: isIntegerPattern_def isDigits_def)
  with assms(2) unsignedPart_cases [of r] show ?thesis
    by (metis list_all_iff set_ConsD)
qed

lemma isDecimalPattern_split:
  assumes "isDecimalPattern r"
  obtains whole decimals where "unsignedPart r = whole @ 0x2E # decimals"
    and "whole \<noteq> []" and "list_all isDigit whole" and "isDigits decimals"
    and "takeWhile isDigit (unsignedPart r) = whole"
    and "dropWhile isDigit (unsignedPart r) = 0x2E # decimals"
proof -
  let ?u = "unsignedPart r"
  from assms obtain decimals where d: "takeWhile isDigit ?u \<noteq> []"
      "dropWhile isDigit ?u = 0x2E # decimals" "isDigits decimals"
    by (auto simp: isDecimalPattern_def Let_def split: list.splits)
  have "?u = takeWhile isDigit ?u @ dropWhile isDigit ?u"
    by simp
  with d have "?u = takeWhile isDigit ?u @ 0x2E # decimals"
    by simp
  moreover have "list_all isDigit (takeWhile isDigit ?u)"
    by (simp add: list_all_iff) (meson set_takeWhileD)
  ultimately show ?thesis
    using d that by blast
qed

lemma isDecimalPattern_chars:
  assumes "isDecimalPattern r" and "c \<in> set r"
  shows "c = 0x2D \<or> c = 0x2E \<or> isDigit c"
proof -
  from assms(1) obtain whole decimals where u: "unsignedPart r = whole @ 0x2E # decimals"
      and "list_all isDigit whole" and "isDigits decimals"
    by (rule isDecimalPattern_split)
  then have "\<forall>c \<in> set (unsignedPart r). c = 0x2E \<or> isDigit c"
    by (auto simp: isDigits_def list_all_iff)
  with assms(2) unsignedPart_cases [of r] show ?thesis
    by (metis set_ConsD)
qed

lemma numeric_char_not_space: "c = 0x2D \<or> c = 0x2E \<or> isDigit c \<Longrightarrow> \<not> isSpace c"
  by (auto simp: isDigit_not_isSpace) (simp_all add: isSpace_def)

lemma numeric_char_lower: "c = 0x2D \<or> c = 0x2E \<or> isDigit c \<Longrightarrow> lowerChar c = c"
  by (auto simp: lowerChar_def isDigit_not_isUpper) (simp_all add: isUpper_def)

lemma numeric_char_not_letter:
  "c = 0x2D \<or> c = 0x2E \<or> isDigit c \<Longrightarrow> \<not> isLower c"
  by (auto simp: isDigit_def isLower_def word_le_nat_alt)

lemma isIntegerPattern_nonempty: "isIntegerPattern r \<Longrightarrow> r \<noteq> []"
  by (auto simp: isIntegerPattern_def isDigits_def unsignedPart_def)

lemma isDecimalPattern_nonempty: "isDecimalPattern r \<Longrightarrow> r \<noteq> []"
  by (auto simp: isDecimalPattern_def unsignedPart_def)

lemma numeric_not_word:
  assumes "r \<noteq> []" and "\<forall>c \<in> set r. c = 0x2D \<or> c = 0x2E \<or> isDigit c"
    and "w \<noteq> []" and "isLower (hd w)"
  shows "toLowerCase r \<noteq> w"
proof
  assume e: "toLowerCase r = w"
  from assms(1) obtain c cs where r: "r = c # cs"
    by (cases r) auto
  with assms(2) have c: "c = 0x2D \<or> c = 0x2E \<or> isDigit c"
    by simp
  from e r have "hd w = lowerChar c"
    by (auto simp: toLowerCase_def)
  with c have "hd w = c"
    by (simp add: numeric_char_lower)
  with c assms(4) show False
    using numeric_char_not_letter by blast
qed

lemma numeric_trim:
  assumes "\<forall>c \<in> set r. c = 0x2D \<or> c = 0x2E \<or> isDigit c"
  shows "trim r = r"
proof (rule trim_no_space, rule ballI)
  fix c assume "c \<in> set r"
  with assms have "c = 0x2D \<or> c = 0x2E \<or> isDigit c"
    by blast
  then show "\<not> isSpace c"
    by (rule numeric_char_not_space)
qed

lemma yes_hd: "js ''yes'' \<noteq> [] \<and> isLower (hd (js ''yes''))"
  by (simp add: js_def isLower_def)

lemma no_hd: "js ''no'' \<noteq> [] \<and> isLower (hd (js ''no''))"
  by (simp add: js_def isLower_def)

lemma isDecimalPattern_not_integer: "isDecimalPattern r \<Longrightarrow> \<not> isIntegerPattern r"
proof
  assume "isDecimalPattern r" and i: "isIntegerPattern r"
  then obtain decimals where "dropWhile isDigit (unsignedPart r) = 0x2E # decimals"
    by (auto elim: isDecimalPattern_split)
  moreover from i have "dropWhile isDigit (unsignedPart r) = []"
    by (simp add: isIntegerPattern_def isDigits_def list_all_iff)
  ultimately show False by simp
qed

lemma parseValue_null: "parseValue rt None opts = Inr JNull"
  by (simp add: parseValue_def)

lemma parseValue_blank: "list_all isSpace r \<Longrightarrow> parseValue rt (Some r) opts = Inr JNull"
  by (simp add: parseValue_def trim_all_space)

lemma parseValue_yes: "toLowerCase r = js ''yes'' \<Longrightarrow> parseValue rt (Some r) opts = Inr (JBool True)"
proof -
  assume y: "toLowerCase r = js ''yes''"
  then have "trim r = r"
    using yes_no_space by (rule toLowerCase_no_space)
  moreover from y have "r \<noteq> []"
    by (auto simp: toLowerCase_def js_def)
  ultimately show ?thesis
    using y by (simp add: parseValue_def)
qed

lemma parseValue_no: "toLowerCase r = js ''no'' \<Longrightarrow> parseValue rt (Some r) opts = Inr (JBool False)"
proof -
  assume n: "toLowerCase r = js ''no''"
  then have "trim r = r"
    using no_no_space by (rule toLowerCase_no_space)
  moreover from n have "r \<noteq> []"
    by (auto simp: toLowerCase_def js_def)
  moreover have "js ''no'' \<noteq> js ''yes''"
    by (simp add: js_def)
  ultimately show ?thesis
    using n by (simp add: parseValue_def)
qed

lemma parseValue_numeric:
  assumes "parseNumbers opts" and "tryParseNumber r = Some n"
    and "r \<noteq> []" and "\<forall>c \<in> set r. c = 0x2D \<or> c = 0x2E \<or> isDigit c"
  shows "parseValue rt (Some r) opts = Inr (JNum n)"
proof -
  from assms(4) have "trim r = r"
    by (rule numeric_trim)
  moreover have "toLowerCase r \<noteq> js ''yes''" "toLowerCase r \<noteq> js ''no''"
    using assms(3,4) yes_hd no_hd by (simp_all add: numeric_not_word)
  ultimately show ?thesis
    using assms(1,2,3) by (simp add: parseValue_def)
qed

lemma parseValue_integer:
  assumes "parseNumbers opts" and "isIntegerPattern r"
  shows "parseValue rt (Some r) opts = Inr (JNum (parseInt10 r))"
  using assms
  by (intro parseValue_numeric)
     (auto simp: tryParseNumber_def isIntegerPattern_nonempty dest: isIntegerPattern_chars)

lemma parseValue_decimal:
  assumes "parseNumbers opts" and "isDecimalPattern r"
  shows "parseValue rt (Some r) opts = Inr (JNum (parseFloat r))"
  using assms
  by (intro parseValue_numeric)
     (auto simp: tryParseNumber_def isDecimalPattern_nonempty isDecimalPattern_not_integer
           dest: isDecimalPattern_chars)

lemma parseValue_fallback:
  assumes "trim r \<noteq> []"
    and "toLowerCase (trim r) \<noteq> js ''yes''" and "toLowerCase (trim r) \<noteq> js ''no''"
    and "parseNumbers opts \<longrightarrow> tryParseNumber (trim r) = None"
    and "parseDates opts \<longrightarrow> newDateISO rt (trim r) = None \<and> matchDateTime (trim r) = None"
  shows "parseValue rt (Some r) opts = Inr (JStr (trim r))"
  using assms by (auto simp: parseValue_def tryParseDate_def Let_def)

lemmas js_eval = js_def trim_def isSpace_def toLowerCase_def lowerChar_def isUpper_def isLower_def isDigit_def

text \<open>
  Claim C5, as amended. \<^verbatim>\<open>parseValue\<close> returns \<^verbatim>\<open>null\<close> for a null, empty or
  whitespace-only input; \<^verbatim>\<open>true\<close> or \<^verbatim>\<open>false\<close> for every string equal to
  \<^verbatim>\<open>yes\<close> or \<^verbatim>\<open>no\<close> up to case, whatever the flags. With \<^verbatim>\<open>parseNumbers\<close> on,
  every string of digits with an optional minus sign gives the number of \<^verbatim>\<open>parseInt\<close>,
  the double nearest to the integer written: that integer when it is below \<open>2 ^ 53\<close>, an
  infinity when it is \<open>2 ^ 1024\<close> or more; and every such string with a decimal point
  between digits gives the number of \<^verbatim>\<open>parseFloat\<close>, the double nearest to the decimal
  written. The sign that the patterns accept is the minus sign alone. The trimmed string
  comes back when no rule applies, which with \<^verbatim>\<open>parseDates\<close> on means that the runtime
  takes the text for no date and that no part of it has the shape
  \<^verbatim>\<open>YYYY-MM-DD HH:MM:SS\<close> (with a space or a \<^verbatim>\<open>T\<close> in the middle).
\<close>

theorem parseValue_contract:
  "parseValue rt None opts = Inr JNull
   \<and> (list_all isSpace r \<longrightarrow> parseValue rt (Some r) opts = Inr JNull)
   \<and> (toLowerCase r = js ''yes'' \<longrightarrow> parseValue rt (Some r) opts = Inr (JBool True))
   \<and> (toLowerCase r = js ''no'' \<longrightarrow> parseValue rt (Some r) opts = Inr (JBool False))
   \<and> (parseNumbers opts \<and> isIntegerPattern r \<longrightarrow>
        parseValue rt (Some r) opts = Inr (JNum (parseInt10 r)))
   \<and> (digitsValue (unsignedPart r) < 2 ^ 53 \<longrightarrow>
        parseInt10 r =
          (if isNegative r then negateNumber (Finite (of_nat (digitsValue (unsignedPart r))))
           else Finite (of_nat (digitsValue (unsignedPart r)))))
   \<and> (2 ^ 1024 \<le> digitsValue (unsignedPart r) \<longrightarrow> parseInt10 r = Infinity (isNegative r))
   \<and> (parseNumbers opts \<and> isDecimalPattern r \<longrightarrow>
        parseValue rt (Some r) opts = Inr (JNum (parseFloat r)))
   \<and> (trim r \<noteq> [] \<and> toLowerCase (trim r) \<noteq> js ''yes'' \<and> toLowerCase (trim r) \<noteq> js ''no''
        \<and> (parseNumbers opts \<longrightarrow> tryParseNumber (trim r) = None)
        \<and> (parseDates opts \<longrightarrow> newDateISO rt (trim r) = None \<and> matchDateTime (trim r) = None)
        \<longrightarrow> parseValue rt (Some r) opts = Inr (JStr (trim r)))"
proof (intro conjI impI)
  show "parseValue rt None opts = Inr JNull"
    by (rule parseValue_null)
  show "parseValue rt (Some r) opts = Inr JNull" if "list_all isSpace r"
    using that by (rule parseValue_blank)
  show "parseValue rt (Some r) opts = Inr (JBool True)" if "toLowerCase r = js ''yes''"
    using that by (rule parseValue_yes)
  show "parseValue rt (Some r) opts = Inr (JBool False)" if "toLowerCase r = js ''no''"
    using that by (rule parseValue_no)
  show "parseValue rt (Some r) opts = Inr (JNum (parseInt10 r))"
    if "parseNumbers opts \<and> isIntegerPattern r"
    using that by (simp add: parseValue_integer)
  show "parseInt10 r =
      (if isNegative r then negateNumber (Finite (of_nat (digitsValue (unsignedPart r))))
       else Finite (of_nat (digitsValue (unsignedPart r))))"
    if "digitsValue (unsignedPart r) < 2 ^ 53"
    using that by (rule parseInt10_small)
  show "parseInt10 r = Infinity (isNegative r)" if "2 ^ 1024 \<le> digitsValue (unsignedPart r)"
    using that by (rule parseInt10_overflow)
  show "parseValue rt (Some r) opts = Inr (JNum (parseFloat r))"
    if "parseNumbers opts \<and> isDecimalPattern r"
    using that by (simp add: parseValue_decimal)
  show "parseValue rt (Some r) opts = Inr (JStr (trim r))"
    if "trim r \<noteq> [] \<and> toLowerCase (trim r) \<noteq> js ''yes'' \<and> toLowerCase (trim r) \<noteq> js ''no''
        \<and> (parseNumbers opts \<longrightarrow> tryParseNumber (trim r) = None)
        \<and> (parseDates opts \<longrightarrow> newDateISO rt (trim r) = None \<and> matchDateTime (trim r) = None)"
    using that by (intro parseValue_fallback) simp_all
qed

lemmas pattern_eval = isIntegerPattern_def isDecimalPattern_def isDigits_def unsignedPart_def
  isNegative_def digitsValue_def

lemma yes_ex: "toLowerCase (js ''Yes'') = js ''yes''"
  by (simp add: js_eval)

lemma no_ex: "toLowerCase (js ''no'') = js ''no''"
  by (simp add: js_eval)

lemma int_ex: "isIntegerPattern (js ''42'') \<and> parseInt10 (js ''42'') = Finite 42"
  by (simp add: js_eval pattern_eval parseInt10_def number_eval)

lemma neg_ex: "isIntegerPattern (js ''-7'') \<and> parseInt10 (js ''-7'') = Finite (- 7)"
  by (simp add: js_eval pattern_eval parseInt10_def number_eval)

lemma big_ex:
  "isIntegerPattern (js ''12345678901234567890'')
   \<and> parseInt10 (js ''12345678901234567890'') = Finite 12345678901234567168"
  by (simp add: js_eval pattern_eval parseInt10_def number_eval)

lemma dec_ex:
  "isDecimalPattern (js ''3.14'')
   \<and> parseFloat (js ''3.14'') = Finite (7070651414971679 / 2251799813685248)"
  by (simp add: js_eval pattern_eval parseFloat_def number_eval)

lemma hello_ex:
  "trim (js '' hello '') = js ''hello''
   \<and> toLowerCase (js ''hello'') \<noteq> js ''yes'' \<and> toLowerCase (js ''hello'') \<noteq> js ''no''
   \<and> tryParseNumber (js ''hello'') = None
   \<and> newDateISO sampleRuntime (js ''hello'') = None \<and> matchDateTime (js ''hello'') = None"
  by (simp add: js_eval tryParseNumber_def pattern_eval sampleRuntime_def dateTimeAt_def
      dateTimePattern_def)

text \<open>
  The contract on the inputs \<^verbatim>\<open>"Yes"\<close>, \<^verbatim>\<open>"no"\<close>, \<^verbatim>\<open>"42"\<close>, \<^verbatim>\<open>"-7"\<close>,
  \<^verbatim>\<open>"12345678901234567890"\<close>, \<^verbatim>\<open>"3.14"\<close>, \<^verbatim>\<open>""\<close> and \<^verbatim>\<open>" hello "\<close>. The double
  written \<^verbatim>\<open>3.14\<close> is \<open>7070651414971679 / 2 ^ 51\<close>.
\<close>

theorem parseValue_contract_witness:
  "parseValue sampleRuntime None sampleCfg = Inr JNull
   \<and> list_all isSpace (js ''  '') \<and> parseValue sampleRuntime (Some (js ''  '')) sampleCfg = Inr JNull
   \<and> parseValue sampleRuntime (Some []) sampleCfg = Inr JNull
   \<and> toLowerCase (js ''Yes'') = js ''yes'' \<and> parseValue sampleRuntime (Some (js ''Yes'')) sampleCfg = Inr (JBool True)
   \<and> toLowerCase (js ''no'') = js ''no'' \<and> parseValue sampleRuntime (Some (js ''no'')) sampleCfg = Inr (JBool False)
   \<and> parseNumbers sampleCfg \<and> isIntegerPattern (js ''42'')
   \<and> parseValue sampleRuntime (Some (js ''42'')) sampleCfg = Inr (JNum (Finite 42))
   \<and> isIntegerPattern (js ''-7'')
   \<and> parseValue sampleRuntime (Some (js ''-7'')) sampleCfg = Inr (JNum (Finite (- 7)))
   \<and> isIntegerPattern (js ''12345678901234567890'')
   \<and> parseValue sampleRuntime (Some (js ''12345678901234567890'')) sampleCfg
       = Inr (JNum (Finite 12345678901234567168))
   \<and> isDecimalPattern (js ''3.14'')
   \<and> parseValue sampleRuntime (Some (js ''3.14'')) sampleCfg
       = Inr (JNum (Finite (7070651414971679 / 2251799813685248)))
   \<and> parseValue sampleRuntime (Some (js '' hello '')) sampleCfg = Inr (JStr (js ''hello''))"
  using parseValue_contract [of sampleRuntime sampleCfg "js ''  ''"]
    parseValue_contract [of sampleRuntime sampleCfg "[]"]
    parseValue_contract [of sampleRuntime sampleCfg "js ''Yes''"]
    parseValue_contract [of sampleRuntime sampleCfg "js ''no''"]
    parseValue_contract [of sampleRuntime sampleCfg "js ''42''"]
    parseValue_contract [of sampleRuntime sampleCfg "js ''-7''"]
    parseValue_contract [of sampleRuntime sampleCfg "js ''12345678901234567890''"]
    parseValue_contract [of sampleRuntime sampleCfg "js ''3.14''"]
    parseValue_contract [of sampleRuntime sampleCfg "js '' hello ''"]
    yes_ex no_ex int_ex neg_ex big_ex dec_ex hello_ex
  by (simp add: sampleCfg_def) (simp add: js_def isSpace_def)

lemma digitsValue_zeros:
  "foldl (\<lambda>a c. 10 * a + (unat c - 48)) k (replicate n (0x30 :: jschar)) = k * 10 ^ n"
  by (induction n arbitrary: k) simp_all

lemma googol_ex:
  "isIntegerPattern (0x31 # replicate 309 0x30) \<and> \<not> isNegative (0x31 # replicate 309 0x30)
   \<and> 2 ^ 1024 \<le> digitsValue (unsignedPart (0x31 # replicate 309 0x30))"
  by (simp add: isIntegerPattern_def isDigits_def unsignedPart_def isNegative_def digitsValue_def
      digitsValue_zeros list_all_iff isDigit_def)

lemma invalid_date_ex:
  "parseValue sampleRuntime (Some (js ''x 2024-13-45 99:99:99''))
     \<lparr>parseDates = True, parseNumbers = True\<rparr> = Inl RangeError"
  by (simp add: parseValue_def tryParseDate_def js_eval tryParseNumber_def pattern_eval
      sampleRuntime_def dateTimeAt_def dateTimePattern_def isHyphen_def isColon_def
      isSpaceOrT_def)

text \<open>
  Claim C5 as first stated fails at three inputs. It takes \<^verbatim>\<open>"+42"\<close> for an integer:
  the pattern \<^verbatim>\<open>/^-?\d+$/\<close> rejects it, and with number parsing on (and date parsing
  off, so that the runtime has no say) the string comes back as it is. It has every
  string of digits parsed as an integer: 1 followed by 309 zeros gives
  \<^verbatim>\<open>Infinity\<close>. And it has the trimmed string returned when no rule applies: the text
  \<^verbatim>\<open>x 2024-13-45 99:99:99\<close> is no number and no date, and the second
  \<^verbatim>\<open>toISOString\<close> of \<^verbatim>\<open>tryParseDate\<close> throws a \<^verbatim>\<open>RangeError\<close> on it.
\<close>

theorem parseValue_refuted:
  "\<not> isIntegerPattern (js ''+42'')
   \<and> parseValue sampleRuntime (Some (js ''+42'')) \<lparr>parseDates = False, parseNumbers = True\<rparr>
       = Inr (JStr (js ''+42''))
   \<and> isIntegerPattern (0x31 # replicate 309 0x30)
   \<and> parseValue sampleRuntime (Some (0x31 # replicate 309 0x30))
         \<lparr>parseDates = False, parseNumbers = True\<rparr>
       = Inr (JNum (Infinity False))
   \<and> parseValue sampleRuntime (Some (js ''x 2024-13-45 99:99:99''))
         \<lparr>parseDates = True, parseNumbers = True\<rparr>
       = Inl RangeError"
proof -
  have "\<not> isIntegerPattern (js ''+42'')
      \<and> parseValue sampleRuntime (Some (js ''+42'')) \<lparr>parseDates = False, parseNumbers = True\<rparr>
          = Inr (JStr (js ''+42''))"
    by (simp add: parseValue_def js_eval tryParseNumber_def pattern_eval)
  moreover have "parseValue sampleRuntime (Some (0x31 # replicate 309 0x30))
      \<lparr>parseDates = False, parseNumbers = True\<rparr> = Inr (JNum (Infinity False))"
    using googol_ex parseInt10_overflow [of "0x31 # replicate 309 0x30"]
      parseValue_integer [of "\<lparr>parseDates = False, parseNumbers = True\<rparr>"
        "0x31 # replicate 309 0x30" sampleRuntime]
    by simp
  ultimately show ?thesis
    using googol_ex invalid_date_ex by simp
qed

section \<open>Properties of the canonical map\<close>

lemma canonicalKey_listed:
  "map_of cmap k = Some v \<Longrightarrow> v \<noteq> [] \<Longrightarrow> canonicalKey cmap k = Own v"
  by (simp add: canonicalKey_def getProp_def)

lemma canonicalKey_unlisted:
  "map_of cmap k = None \<Longrightarrow> k \<notin> set objectPrototypeKeys \<Longrightarrow> canonicalKey cmap k = Own k"
  by (simp add: canonicalKey_def getProp_def)

lemma canonicalKey_inherited:
  "map_of cmap k = None \<Longrightarrow> k \<in> set objectPrototypeKeys \<Longrightarrow> canonicalKey cmap k = Inherited k"
  by (simp add: canonicalKey_def getProp_def)

lemma CANONICAL_MAP_identity: "list_all (\<lambda>(k, v). v = k) CANONICAL_MAP"
  by (simp add: CANONICAL_MAP_def)

lemma canonicalKey_identity_map:
  assumes "list_all (\<lambda>(k, v). v = k) cmap" and "map_of cmap k \<noteq> None"
  shows "canonicalKey cmap k = Own k"
proof -
  from assms(2) obtain v where v: "map_of cmap k = Some v"
    by auto
  then have "(k, v) \<in> set cmap"
    by (rule map_of_SomeD)
  with assms(1) have "v = k"
    by (auto simp: list_all_iff)
  with v show ?thesis
    by (simp add: canonicalKey_def getProp_def)
qed

text \<open>
  Claim C9, at the label \<^verbatim>\<open>Constructor\<close>. Its normalized key \<^verbatim>\<open>constructor\<close> is not
  listed in the canonical map, and \<^verbatim>\<open>CANONICAL_MAP['constructor']\<close> is the function that
  every object inherits: the key does not pass through unchanged.
\<close>

theorem canonicalKey_constructor:
  "normalizeKey (js ''Constructor'') = js ''constructor''
   \<and> map_of CANONICAL_MAP (js ''constructor'') = None
   \<and> canonicalKey CANONICAL_MAP (js ''constructor'') = Inherited (js ''constructor'')
   \<and> canonicalKey CANONICAL_MAP (js ''constructor'') \<noteq> Own (js ''constructor'')"
  by (simp add: normalizeKey_def js_eval isSeparator_def isWord_def canonicalKey_def getProp_def
      CANONICAL_MAP_def objectPrototypeKeys_def)

text \<open>
  Claim C10. Every entry of the canonical map maps a key to itself, and for every row
  label whose normalized key is listed in the map the field key is the normalized key.
\<close>

theorem CANONICAL_MAP_is_identity:
  "list_all (\<lambda>(k, v). v = k) CANONICAL_MAP
   \<and> (map_of CANONICAL_MAP (normalizeKey label) \<noteq> None \<longrightarrow>
        canonicalKey CANONICAL_MAP (normalizeKey label) = Own (normalizeKey label)
        \<and> fieldKey rt CANONICAL_MAP label = normalizeKey label)"
  using CANONICAL_MAP_identity canonicalKey_identity_map [of CANONICAL_MAP "normalizeKey label"]
  by (simp add: fieldKey_def)

lemma match_ip_key: "normalizeKey (js ''Match IP:'') = js ''match_ip_''
    \<and> normalizeKey (js '' Match-IP'') = js ''match_ip''"
  by (simp add: normalizeKey_def js_eval isSeparator_def isWord_def)

theorem CANONICAL_MAP_is_identity_witness:
  "map_of CANONICAL_MAP (normalizeKey (js '' Match-IP'')) = Some (js ''match_ip'')
   \<and> fieldKey sampleRuntime CANONICAL_MAP (js '' Match-IP'') = js ''match_ip''"
  using CANONICAL_MAP_is_identity [of "js '' Match-IP''" sampleRuntime] match_ip_key
  by (simp add: CANONICAL_MAP_def js_def)

section \<open>Properties of the page fetch\<close>

lemmas fetch_eval = safeFetch_def safeFetchFrom.simps tryFetch_def isOk_def maxRetries_def
  retryBaseDelay_def

text \<open>
  Claim C3. When every call of the fetch capability returns HTTP 500, the page fetch
  raises the error after the first call and five retries, having waited 1000, 2000, 4000,
  8000 and 16000 ms: the wait before retry \<open>k\<close> (from 0) is \<open>1000 * 2 ^ k\<close> ms.
\<close>

theorem safeFetch_always_500:
  "safeFetch (\<lambda>attempt. Response 500 (body attempt)) =
     (Inl (HttpError 500),
      [Fetch, Wait 1000, Fetch, Wait 2000, Fetch, Wait 4000, Fetch, Wait 8000,
       Fetch, Wait 16000, Fetch])
   \<and> [Wait 1000, Wait 2000, Wait 4000, Wait 8000, Wait 16000]
       = map (\<lambda>k. Wait (retryBaseDelay * 2 ^ k)) [0..<maxRetries]
   \<and> length (filter (\<lambda>e. e = Fetch)
        (snd (safeFetch (\<lambda>attempt. Response 500 (body attempt))))) = 1 + maxRetries"
  by (simp add: fetch_eval upt_rec)

text \<open>
  Claim C4, at six throttled responses. The page fetch waits 1000, 2000, 4000, 8000, 16000
  and 32000 ms, makes no seventh call, leaves the loop and raises the error of its last
  line, the one marked \<^verbatim>\<open>unreachable\<close>: the throttled responses reach the caller as an
  error, and the run ends with it. The same holds when a seventh call would have been
  served, and when failed calls have used a part of the six calls. The path of the failed
  calls tests the count before it waits; the path of the throttled calls waits and counts
  with no test.
\<close>

theorem safeFetch_throttled_forever:
  "safeFetch (\<lambda>attempt. Response 429 (None :: unit option)) =
     (Inl Unreachable,
      [Fetch, Wait 1000, Fetch, Wait 2000, Fetch, Wait 4000, Fetch, Wait 8000,
       Fetch, Wait 16000, Fetch, Wait 32000])
   \<and> fst (safeFetch (\<lambda>attempt. if attempt < 6 then Response 503 None else Response 200 (Some ())))
       = Inl Unreachable
   \<and> fst (safeFetch (\<lambda>attempt. if attempt < 3 then Response 500 None
                                 else Response 429 (None :: unit option)))
       = Inl Unreachable
   \<and> gcpdFetchAndParseAll sampleRuntime sampleCfg (\<lambda>page token attempt. Response 429 None)
       = Inl Unreachable"
proof -
  have "fetchPage (\<lambda>page token attempt. Response 429 None) 1 None = Inl Unreachable"
    by (simp add: fetchPage_def fetch_eval)
  then have "paginate sampleRuntime sampleCfg (\<lambda>page token attempt. Response 429 None)
      0 None emptyAggregate = Inl Unreachable"
    by (subst paginate.simps) (simp add: sampleCfg_def)
  then show ?thesis
    by (simp add: gcpdFetchAndParseAll_def fetch_eval)
qed

lemma tryFetch_throttle: "isThrottle r \<Longrightarrow> tryFetch r = Throttled"
  by (auto simp: isThrottle_def tryFetch_def isOk_def split: response.splits)

lemma tryFetch_served: "isOk status \<Longrightarrow> tryFetch (Response status (Some j)) = Returned j"
  by (simp add: tryFetch_def)

lemma safeFetchFrom_throttled:
  assumes "\<forall>a. attempt \<le> a \<and> a < k \<longrightarrow> isThrottle (fetch a)"
    and "tryFetch (fetch k) = Returned j" and "attempt \<le> k" and "k \<le> maxRetries"
  shows "safeFetchFrom fetch attempt evs =
           (Inr j, evs @ concat (map (\<lambda>a. [Fetch, Wait (retryBaseDelay * 2 ^ a)]) [attempt..<k])
                   @ [Fetch])"
  using assms
proof (induction "k - attempt" arbitrary: attempt evs)
  case 0
  then have "attempt = k" by simp
  with 0 show ?case
    by (subst safeFetchFrom.simps) simp
next
  case (Suc n)
  then have lt: "attempt < k" and le: "attempt \<le> maxRetries"
    by simp_all
  with Suc.prems have t: "tryFetch (fetch attempt) = Throttled"
    by (simp add: tryFetch_throttle)
  have "safeFetchFrom fetch (attempt + 1) (evs @ [Fetch, Wait (retryBaseDelay * 2 ^ attempt)]) =
          (Inr j, (evs @ [Fetch, Wait (retryBaseDelay * 2 ^ attempt)])
             @ concat (map (\<lambda>a. [Fetch, Wait (retryBaseDelay * 2 ^ a)]) [attempt + 1..<k]) @ [Fetch])"
    using Suc.hyps(2) Suc.prems lt by (intro Suc.hyps(1)) auto
  moreover have "[attempt..<k] = attempt # [attempt + 1..<k]"
    using lt by (simp add: upt_conv_Cons)
  ultimately show ?case
    using t le by (subst safeFetchFrom.simps) simp
qed

lemma paginate_cong:
  "(\<And>p t. fetchPage s p t = fetchPage s' p t) \<Longrightarrow>
   paginate rt cfg s page token agg = paginate rt cfg s' page token agg"
proof (induction rt cfg s page token agg rule: paginate.induct)
  case (1 rt cfg service page token agg)
  have e: "fetchPage s' (page + 1) token = fetchPage service (page + 1) token"
    using "1.prems" by simp
  show ?case
    using "1.IH" "1.prems"
    by (subst paginate.simps [of rt cfg service page token agg],
        subst paginate.simps [of rt cfg s' page token agg])
       (auto simp: e split: sum.splits option.splits)
qed

text \<open>
  Within the six calls the recovery is local. When at most five throttled responses
  (HTTP 429 or 503) come before a response that is served, the page fetch waits
  \<open>1000 * 2 ^ a\<close> ms after the throttled call number \<open>a\<close>, calls again within the same
  page request and returns the parsed page with no error. The retries leave the page
  counter alone: the page loop ends as it does when the request is served at its first
  call.
\<close>

theorem safeFetch_recovers:
  assumes "k \<le> maxRetries"
    and "list_all (\<lambda>a. isThrottle (fetch a)) [0..<k]"
    and "fetch k = Response status (Some j)" and "isOk status"
  shows "safeFetch fetch =
           (Inr j, concat (map (\<lambda>a. [Fetch, Wait (1000 * 2 ^ a)]) [0..<k]) @ [Fetch])
         \<and> (service (page + 1) token = fetch \<longrightarrow>
              paginate rt cfg service page token agg =
              paginate rt cfg
                (\<lambda>p t. if p = page + 1 \<and> t = token then (\<lambda>a. Response status (Some j))
                        else service p t)
                page token agg)"
proof
  from assms(2) have "\<forall>a. 0 \<le> a \<and> a < k \<longrightarrow> isThrottle (fetch a)"
    by (simp add: list_all_iff)
  moreover from assms(3,4) have "tryFetch (fetch k) = Returned j"
    by (simp add: tryFetch_served)
  ultimately have "safeFetchFrom fetch 0 [] =
      (Inr j, [] @ concat (map (\<lambda>a. [Fetch, Wait (retryBaseDelay * 2 ^ a)]) [0..<k]) @ [Fetch])"
    using assms(1) by (intro safeFetchFrom_throttled) simp_all
  then show r: "safeFetch fetch =
      (Inr j, concat (map (\<lambda>a. [Fetch, Wait (1000 * 2 ^ a)]) [0..<k]) @ [Fetch])"
    by (simp add: safeFetch_def retryBaseDelay_def)
  show "service (page + 1) token = fetch \<longrightarrow>
      paginate rt cfg service page token agg =
      paginate rt cfg
        (\<lambda>p t. if p = page + 1 \<and> t = token then (\<lambda>a. Response status (Some j)) else service p t)
        page token agg"
  proof
    assume s: "service (page + 1) token = fetch"
    have "fst (safeFetch (\<lambda>a. Response status (Some j))) = Inr j"
      using assms(4) by (simp add: safeFetch_def safeFetchFrom.simps tryFetch_served)
    with r s have "\<forall>p t. fetchPage service p t =
        fetchPage (\<lambda>p t. if p = page + 1 \<and> t = token then (\<lambda>a. Response status (Some j))
                         else service p t) p t"
      by (simp add: fetchPage_def)
    then show "paginate rt cfg service page token agg =
      paginate rt cfg
        (\<lambda>p t. if p = page + 1 \<and> t = token then (\<lambda>a. Response status (Some j)) else service p t)
        page token agg"
      by (intro paginate_cong) blast
  qed
qed

section \<open>The sample run\<close>

lemmas parse_eval = parseMatchHtml_def selectTable_def headerFields_def matchIdAt_def
  fieldKey_def canonicalKey_def getProp_def CANONICAL_MAP_def objectPrototypeKeys_def
  normalizeKey_def isSeparator_def isWord_def parseValue_def tryParseNumber_def
  isIntegerPattern_def isDecimalPattern_def isDigits_def unsignedPart_def isNegative_def
  parseInt10_def parseFloat_def digitsValue_def number_eval js_eval

lemmas admit_eval = admit_def injectId_def dedupeKey_def getProp_def objectPrototypeKeys_def

lemma html_distinct:
  "html100 \<noteq> html200" "html100 \<noteq> htmlZero" "html200 \<noteq> htmlZero"
  "html200 \<noteq> html100" "htmlZero \<noteq> html100" "htmlZero \<noteq> html200"
  by (simp_all add: html100_def html200_def htmlZero_def js_def)

lemma sample_tables:
  "parseTables sampleRuntime html100 = [table100]"
  "parseTables sampleRuntime html200 = [table200]"
  "parseTables sampleRuntime htmlZero = [tableZero]"
  by (simp_all add: sampleRuntime_def html_distinct)

lemma sample_date: "newDateISO sampleRuntime s = None"
  by (simp add: sampleRuntime_def)

lemma parse100:
  "parseMatchHtml sampleRuntime html100 \<lparr>parseDates = True, parseNumbers = True\<rparr> =
     Inr (Some rec100)"
  by (simp add: sample_tables table100_def rec100_def parse_eval)

lemma parse200:
  "parseMatchHtml sampleRuntime html200 \<lparr>parseDates = True, parseNumbers = True\<rparr> =
     Inr (Some rec200)"
  by (simp add: sample_tables table200_def rec200_def parse_eval)

lemma parseZero:
  "parseMatchHtml sampleRuntime htmlZero \<lparr>parseDates = True, parseNumbers = True\<rparr> =
     Inr (Some recZero)"
  by (simp add: sample_tables tableZero_def recZero_def parse_eval)

lemma extract100:
  "extractTablesFromHtml sampleRuntime html100 = [\<lparr>blockId = Some (js ''100''), blockHtml = html100\<rparr>]"
  by (simp add: extractTablesFromHtml_def sample_tables table100_def matchIdAt_def js_eval)

lemma extract200:
  "extractTablesFromHtml sampleRuntime html200 = [\<lparr>blockId = Some (js ''200''), blockHtml = html200\<rparr>]"
  by (simp add: extractTablesFromHtml_def sample_tables table200_def matchIdAt_def js_eval)

lemma extractZero:
  "extractTablesFromHtml sampleRuntime htmlZero = [\<lparr>blockId = None, blockHtml = htmlZero\<rparr>]"
  by (simp add: extractTablesFromHtml_def sample_tables tableZero_def)

lemma process100:
  "processPage sampleRuntime sampleCfg (page100 t) emptyAggregate
    = Inr \<lparr>results = [rec100], seen = {js ''id:100''}\<rparr>"
  by (simp add: processPage_def htmlOf_def page100_def extract100 sampleCfg_def parse100 emptyAggregate_def rec100_def admit_eval js_def)

lemma process100_again:
  "processPage sampleRuntime sampleCfg (page100 t)
      \<lparr>results = [rec100], seen = {js ''id:100''}\<rparr>
    = Inr \<lparr>results = [rec100], seen = {js ''id:100''}\<rparr>"
  by (simp add: processPage_def htmlOf_def page100_def extract100 sampleCfg_def parse100 rec100_def admit_eval js_def)

lemma process200:
  "processPage sampleRuntime sampleCfg (page200 t)
      \<lparr>results = [rec100], seen = {js ''id:100''}\<rparr>
    = Inr \<lparr>results = [rec100, rec200], seen = {js ''id:200'', js ''id:100''}\<rparr>"
  by (simp add: processPage_def htmlOf_def page200_def extract200 sampleCfg_def parse200 rec100_def rec200_def admit_eval js_def)

lemma processZero:
  "processPage sampleRuntime sampleCfg \<lparr>success = True, html = Some htmlZero, continue_token = tok\<rparr>
      \<lparr>results = rs, seen = {}\<rparr>
    = Inr \<lparr>results = rs @ [recZero], seen = {}\<rparr>"
  by (simp add: processPage_def htmlOf_def extractZero sampleCfg_def parseZero recZero_def admit_eval js_def)

lemma fetch_sample:
  "fetchPage sampleService 1 None = Inr (Some (page100 ''t1''))"
  "fetchPage sampleService 2 (Some (js ''t1'')) = Inr (Some (page100 ''t2''))"
  "fetchPage sampleService 3 (Some (js ''t2'')) = Inr (Some (page200 ''t2''))"
  by (simp_all add: fetchPage_def sampleService_def pageOf_def page100_def page200_def fetch_eval)

lemma page_fields:
  "success (page100 t)" "continue_token (page100 t) = Some (js t)"
  "success (page200 t)" "continue_token (page200 t) = Some (js t)"
  by (simp_all add: page100_def page200_def)

lemma token_facts: "js ''t1'' \<noteq> []" "js ''t2'' \<noteq> []" "js ''t2'' \<noteq> js ''t1''"
  by (simp_all add: js_def)

section \<open>Properties of the page loop\<close>

lemma newTokenOf_None: "continue_token json = None \<Longrightarrow> newTokenOf json = None"
  by (simp add: newTokenOf_def)

lemma newTokenOf_same: "continue_token json = token \<Longrightarrow> newTokenOf json = None \<or> newTokenOf json = token"
  by (auto simp: newTokenOf_def split: option.splits)

lemma newTokenOf_Some: "continue_token json = Some t \<Longrightarrow> t \<noteq> [] \<Longrightarrow> newTokenOf json = Some t"
  by (simp add: newTokenOf_def)

lemma paginate_done: "maxPages cfg \<le> page \<Longrightarrow> paginate rt cfg service page token agg = Inr (page, agg)"
  by (subst paginate.simps) simp

lemma paginate_failed:
  assumes "page < maxPages cfg" and "fetchPage service (page + 1) token = Inr (Some json)"
    and "\<not> success json"
  shows "paginate rt cfg service page token agg = Inr (page + 1, agg)"
  using assms by (subst paginate.simps) simp

lemma paginate_last:
  assumes "page < maxPages cfg" and "fetchPage service (page + 1) token = Inr (Some json)"
    and "success json" and "processPage rt cfg json agg = Inr agg'"
    and "newTokenOf json = None \<or> newTokenOf json = token \<or> page + 1 = maxPages cfg"
  shows "paginate rt cfg service page token agg = Inr (page + 1, agg')"
  using assms paginate_done [of cfg "page + 1" rt service "newTokenOf json" agg']
  by (subst paginate.simps) auto

lemma paginate_next:
  assumes "page < maxPages cfg" and "fetchPage service (page + 1) token = Inr (Some json)"
    and "success json" and "processPage rt cfg json agg = Inr agg'"
    and "continue_token json = Some t" and "t \<noteq> []" and "Some t \<noteq> token"
  shows "paginate rt cfg service page token agg = paginate rt cfg service (page + 1) (Some t) agg'"
  using assms by (subst paginate.simps) (simp add: newTokenOf_Some)

lemma paginate_three_pages:
  assumes "3 \<le> maxPages cfg"
    and "fetchPage service 1 None = Inr (Some j1)" and "success j1"
    and "continue_token j1 = Some t1" and "t1 \<noteq> []" and "processPage rt cfg j1 agg = Inr agg1"
    and "fetchPage service 2 (Some t1) = Inr (Some j2)" and "success j2"
    and "continue_token j2 = Some t2" and "t2 \<noteq> []" and "t2 \<noteq> t1"
    and "processPage rt cfg j2 agg1 = Inr agg2"
    and "fetchPage service 3 (Some t2) = Inr (Some j3)" and "success j3"
    and "continue_token j3 = Some t2" and "processPage rt cfg j3 agg2 = Inr agg3"
  shows "paginate rt cfg service 0 None agg = Inr (3, agg3)"
proof -
  have "paginate rt cfg service 0 None agg = paginate rt cfg service 1 (Some t1) agg1"
    using paginate_next [of 0 cfg service None j1 rt agg agg1 t1] assms by simp
  also have "\<dots> = paginate rt cfg service 2 (Some t2) agg2"
    using paginate_next [of 1 cfg service "Some t1" j2 rt agg1 agg2 t2] assms
    by (simp add: numeral_2_eq_2)
  also have "\<dots> = Inr (3, agg3)"
    using paginate_last [of 2 cfg service "Some t2" j3 rt agg2 agg3] assms
    by (simp add: newTokenOf_Some numeral_2_eq_2 numeral_3_eq_3)
  finally show ?thesis .
qed

text \<open>
  Claim C2. The page loop ends with no error: after a page whose success flag is false,
  which adds no record; and after a page that was processed, when it returns no
  continuation token, or the token that was sent with the request, or when the page counter
  has reached \<^verbatim>\<open>maxPages\<close>. When the third of three responses repeats the token of the
  second, the loop ends after the third page.
\<close>

theorem paginate_stops:
  "(page < maxPages cfg \<and> fetchPage service (page + 1) token = Inr (Some json) \<and> \<not> success json
      \<longrightarrow> paginate rt cfg service page token agg = Inr (page + 1, agg))
   \<and> (page < maxPages cfg \<and> fetchPage service (page + 1) token = Inr (Some json) \<and> success json
       \<and> processPage rt cfg json agg = Inr agg'
       \<and> (continue_token json = None \<or> continue_token json = token \<or> page + 1 = maxPages cfg)
      \<longrightarrow> paginate rt cfg service page token agg = Inr (page + 1, agg'))
   \<and> (3 \<le> maxPages cfg
       \<and> fetchPage service 1 None = Inr (Some j1) \<and> success j1
       \<and> continue_token j1 = Some t1 \<and> t1 \<noteq> [] \<and> processPage rt cfg j1 agg = Inr agg1
       \<and> fetchPage service 2 (Some t1) = Inr (Some j2) \<and> success j2
       \<and> continue_token j2 = Some t2 \<and> t2 \<noteq> [] \<and> t2 \<noteq> t1 \<and> processPage rt cfg j2 agg1 = Inr agg2
       \<and> fetchPage service 3 (Some t2) = Inr (Some j3) \<and> success j3
       \<and> continue_token j3 = Some t2 \<and> processPage rt cfg j3 agg2 = Inr agg3
      \<longrightarrow> paginate rt cfg service 0 None agg = Inr (3, agg3))"
proof (intro conjI impI)
  assume "page < maxPages cfg \<and> fetchPage service (page + 1) token = Inr (Some json) \<and> \<not> success json"
  then show "paginate rt cfg service page token agg = Inr (page + 1, agg)"
    by (simp add: paginate_failed)
next
  assume a: "page < maxPages cfg \<and> fetchPage service (page + 1) token = Inr (Some json) \<and> success json
       \<and> processPage rt cfg json agg = Inr agg'
       \<and> (continue_token json = None \<or> continue_token json = token \<or> page + 1 = maxPages cfg)"
  then have "newTokenOf json = None \<or> newTokenOf json = token \<or> page + 1 = maxPages cfg"
    using newTokenOf_None [of json] newTokenOf_same [of json token] by blast
  with a show "paginate rt cfg service page token agg = Inr (page + 1, agg')"
    by (intro paginate_last [where json = json]) simp_all
next
  assume "3 \<le> maxPages cfg
       \<and> fetchPage service 1 None = Inr (Some j1) \<and> success j1
       \<and> continue_token j1 = Some t1 \<and> t1 \<noteq> [] \<and> processPage rt cfg j1 agg = Inr agg1
       \<and> fetchPage service 2 (Some t1) = Inr (Some j2) \<and> success j2
       \<and> continue_token j2 = Some t2 \<and> t2 \<noteq> [] \<and> t2 \<noteq> t1 \<and> processPage rt cfg j2 agg1 = Inr agg2
       \<and> fetchPage service 3 (Some t2) = Inr (Some j3) \<and> success j3
       \<and> continue_token j3 = Some t2 \<and> processPage rt cfg j3 agg2 = Inr agg3"
  then show "paginate rt cfg service 0 None agg = Inr (3, agg3)"
    by (intro paginate_three_pages [where ?j1.0 = j1 and ?j2.0 = j2 and ?j3.0 = j3
          and ?t1.0 = t1 and ?t2.0 = t2 and ?agg1.0 = agg1 and ?agg2.0 = agg2]) simp_all
qed

lemma fetch_stopped:
  "fetchPage stoppedService 1 None =
     Inr (Some \<lparr>success = False, html = Some html100, continue_token = Some (js ''t1'')\<rparr>)"
  by (simp add: fetchPage_def stoppedService_def fetch_eval)

lemma fetch_lastPage:
  "fetchPage lastPageService 1 None =
     Inr (Some \<lparr>success = True, html = Some html100, continue_token = None\<rparr>)"
  by (simp add: fetchPage_def lastPageService_def fetch_eval)

lemma process_lastPage:
  "processPage sampleRuntime sampleCfg \<lparr>success = True, html = Some html100, continue_token = None\<rparr>
     emptyAggregate = Inr \<lparr>results = [rec100], seen = {js ''id:100''}\<rparr>"
  using process100 [of "''t1''"] by (simp add: processPage_def htmlOf_def page100_def)

lemma process_capped:
  "processPage sampleRuntime (sampleCfg\<lparr>maxPages := 1\<rparr>) (page100 t) emptyAggregate =
     Inr \<lparr>results = [rec100], seen = {js ''id:100''}\<rparr>"
  by (simp add: processPage_def htmlOf_def page100_def extract100 sampleCfg_def parse100
      emptyAggregate_def rec100_def admit_eval js_def)

text \<open>
  The loop on the sample services: a page with the success flag off, a page with no
  token, a cap of one page, and the three pages of which the last repeats a token.
\<close>

theorem paginate_stops_witness:
  "paginate sampleRuntime sampleCfg stoppedService 0 None emptyAggregate = Inr (1, emptyAggregate)
   \<and> paginate sampleRuntime sampleCfg lastPageService 0 None emptyAggregate
       = Inr (1, \<lparr>results = [rec100], seen = {js ''id:100''}\<rparr>)
   \<and> paginate sampleRuntime (sampleCfg\<lparr>maxPages := 1\<rparr>) sampleService 0 None emptyAggregate
       = Inr (1, \<lparr>results = [rec100], seen = {js ''id:100''}\<rparr>)
   \<and> paginate sampleRuntime sampleCfg sampleService 0 None emptyAggregate
       = Inr (3, \<lparr>results = [rec100, rec200], seen = {js ''id:200'', js ''id:100''}\<rparr>)"
  using
    paginate_stops [where page = 0 and cfg = sampleCfg and service = stoppedService
      and token = None and rt = sampleRuntime and agg = emptyAggregate
      and json = "\<lparr>success = False, html = Some html100, continue_token = Some (js ''t1'')\<rparr>"]
    paginate_stops [where page = 0 and cfg = sampleCfg and service = lastPageService
      and token = None and rt = sampleRuntime and agg = emptyAggregate
      and json = "\<lparr>success = True, html = Some html100, continue_token = None\<rparr>"
      and agg' = "\<lparr>results = [rec100], seen = {js ''id:100''}\<rparr>"]
    paginate_stops [where page = 0 and cfg = "sampleCfg\<lparr>maxPages := 1\<rparr>" and service = sampleService
      and token = None and rt = sampleRuntime and agg = emptyAggregate
      and json = "page100 ''t1''"
      and agg' = "\<lparr>results = [rec100], seen = {js ''id:100''}\<rparr>"]
    paginate_stops [where cfg = sampleCfg and service = sampleService
      and rt = sampleRuntime and agg = emptyAggregate
      and ?j1.0 = "page100 ''t1''" and ?j2.0 = "page100 ''t2''" and ?j3.0 = "page200 ''t2''"
      and ?t1.0 = "js ''t1''" and ?t2.0 = "js ''t2''"
      and ?agg1.0 = "\<lparr>results = [rec100], seen = {js ''id:100''}\<rparr>"
      and ?agg2.0 = "\<lparr>results = [rec100], seen = {js ''id:100''}\<rparr>"
      and ?agg3.0 = "\<lparr>results = [rec100, rec200], seen = {js ''id:200'', js ''id:100''}\<rparr>"]
    fetch_stopped fetch_lastPage process_lastPage process_capped fetch_sample page_fields token_facts
    process100 [of "''t1''"] process100_again [of "''t2''"] process200 [of "''t2''"]
  by (simp add: sampleCfg_def)

text \<open>The second page of the sample service, throttled twice.\<close>

lemma sample_throttled:
  "list_all (\<lambda>a. isThrottle (sampleService 2 (Some (js ''t1'')) a)) [0..<2]"
  "sampleService 2 (Some (js ''t1'')) 2 = Response 200 (Some (Some (page100 ''t2'')))"
  by (simp_all add: sampleService_def pageOf_def page100_def isThrottle_def upt_rec)

theorem safeFetch_recovers_witness:
  "list_all (\<lambda>a. isThrottle (sampleService 2 (Some (js ''t1'')) a)) [0..<2]
   \<and> safeFetch (sampleService 2 (Some (js ''t1''))) =
       (Inr (Some (page100 ''t2'')), [Fetch, Wait 1000, Fetch, Wait 2000, Fetch])
   \<and> paginate sampleRuntime sampleCfg sampleService 1 (Some (js ''t1'')) emptyAggregate =
       paginate sampleRuntime sampleCfg
         (\<lambda>p t. if p = 1 + 1 \<and> t = Some (js ''t1'') then (\<lambda>a. Response 200 (Some (Some (page100 ''t2''))))
                 else sampleService p t)
         1 (Some (js ''t1'')) emptyAggregate"
proof -
  have k: "2 \<le> maxRetries" and ok: "isOk 200"
    by (simp_all add: maxRetries_def isOk_def)
  have "[0..<2] = [0, 1]"
    by (simp add: upt_rec)
  then have "concat (map (\<lambda>a. [Fetch, Wait (1000 * 2 ^ a)]) [0..<2]) @ [Fetch]
      = [Fetch, Wait 1000, Fetch, Wait 2000, Fetch]"
    by simp
  with safeFetch_recovers [OF k sample_throttled ok, of sampleService 1 "Some (js ''t1'')"
      sampleRuntime sampleCfg emptyAggregate] sample_throttled(1)
  show ?thesis
    by (simp add: numeral_2_eq_2)
qed

section \<open>Properties of the aggregator\<close>

lemma dedupeInvariant_empty: "dedupeInvariant rt emptyAggregate"
  by (simp add: dedupeInvariant_def admittedKeys_def emptyAggregate_def)

lemma admittedKeys_admit:
  "admittedKeys rt (agg\<lparr>results := results agg @ [r], seen := S\<rparr>) =
     admittedKeys rt agg @ (if dedupeKey rt True r \<noteq> [] then [dedupeKey rt True r] else [])"
  by (simp add: admittedKeys_def)

lemma dedupeInvariant_admit:
  assumes "dedupeInvariant rt agg"
  shows "dedupeInvariant rt (admit rt True tid parsed agg)"
proof -
  let ?r = "injectId tid parsed"
  let ?k = "dedupeKey rt True ?r"
  show ?thesis
  proof (cases "?k \<noteq> [] \<and> ?k \<in> seen agg")
    case True
    with assms show ?thesis
      by (simp add: admit_def Let_def)
  next
    case False
    then have a: "admit rt True tid parsed agg =
        agg\<lparr>results := results agg @ [?r], seen := (if ?k \<noteq> [] then insert ?k (seen agg) else seen agg)\<rparr>"
      by (auto simp: admit_def Let_def)
    from assms False show ?thesis
      unfolding a dedupeInvariant_def admittedKeys_admit
      by (auto simp: admittedKeys_def)
  qed
qed

lemma admitAll_invariant:
  "dedupe cfg \<Longrightarrow> dedupeInvariant rt agg \<Longrightarrow> admitAll rt cfg ts agg = Inr agg' \<Longrightarrow>
   dedupeInvariant rt agg'"
proof (induction ts arbitrary: agg)
  case Nil
  then show ?case by simp
next
  case (Cons t ts)
  show ?case
  proof (cases "parseMatchHtml rt (blockHtml t)
                  \<lparr>parseDates = parseDates cfg, parseNumbers = parseNumbers cfg\<rparr>")
    case (Inl e)
    with Cons.prems show ?thesis by simp
  next
    case (Inr p)
    show ?thesis
    proof (cases p)
      case None
      with Inr Cons show ?thesis by simp
    next
      case (Some parsed)
      with Inr Cons.prems have "admitAll rt cfg ts (admit rt True (blockId t) parsed agg) = Inr agg'"
        by simp
      moreover have "dedupeInvariant rt (admit rt True (blockId t) parsed agg)"
        using Cons.prems(2) by (rule dedupeInvariant_admit)
      ultimately show ?thesis
        using Cons.IH Cons.prems(1) by blast
    qed
  qed
qed

lemma paginate_invariant:
  "dedupe cfg \<Longrightarrow> dedupeInvariant rt agg \<Longrightarrow>
   paginate rt cfg service page token agg = Inr (n, agg') \<Longrightarrow> dedupeInvariant rt agg'"
proof (induction rt cfg service page token agg rule: paginate.induct)
  case (1 rt cfg service page token agg)
  from "1.prems"(3) show ?case
    using "1.IH" "1.prems"(1,2)
    by (subst (asm) paginate.simps)
       (auto simp: processPage_def split: if_splits sum.splits option.splits
             dest: admitAll_invariant)
qed

lemma at_most_one:
  "distinct (filter P (map f xs)) \<Longrightarrow> P c \<Longrightarrow> \<forall>x \<in> set xs. Q x \<longrightarrow> f x = c \<Longrightarrow>
   length (filter Q xs) \<le> 1"
proof (induction xs)
  case Nil
  then show ?case by simp
next
  case (Cons x xs)
  show ?case
  proof (cases "Q x")
    case False
    with Cons show ?thesis by (auto split: if_splits)
  next
    case True
    with Cons.prems have fx: "f x = c" by simp
    have "filter Q xs = []"
    proof (rule ccontr)
      assume "filter Q xs \<noteq> []"
      then obtain y where y: "y \<in> set xs" "Q y"
        by (metis filter_False)
      with Cons.prems have "f y = c" by simp
      with y Cons.prems(2) have "c \<in> set (filter P (map f xs))"
        by auto
      with Cons.prems(1,2) fx show False by simp
    qed
    with True show ?thesis by simp
  qed
qed

lemma dedupeKey_truthy:
  "getProp r (js ''match_id'') = Own v \<Longrightarrow> truthy v \<Longrightarrow>
   dedupeKey rt True r = js ''id:'' @ toString rt v"
  by (simp add: dedupeKey_def)

lemma admitted_at_most_once:
  assumes "dedupeInvariant rt agg" and "truthy v"
  shows "length (filter (\<lambda>r. getProp r (js ''match_id'') = Own v) (results agg)) \<le> 1"
proof (rule at_most_one [where f = "dedupeKey rt True" and P = "\<lambda>k. k \<noteq> []"
      and c = "js ''id:'' @ toString rt v"])
  from assms(1) show "distinct (filter (\<lambda>k. k \<noteq> []) (map (dedupeKey rt True) (results agg)))"
    by (simp add: dedupeInvariant_def admittedKeys_def)
  show "js ''id:'' @ toString rt v \<noteq> []"
    by (simp add: js_def)
  from assms(2) show "\<forall>r \<in> set (results agg). getProp r (js ''match_id'') = Own v \<longrightarrow>
      dedupeKey rt True r = js ''id:'' @ toString rt v"
    by (simp add: dedupeKey_truthy)
qed

lemma admit_without_id:
  "\<not> truthyProp (getProp parsed (js ''match_id'')) \<Longrightarrow>
   admit rt dd None parsed agg = agg\<lparr>results := results agg @ [parsed]\<rparr>"
  by (simp add: admit_def injectId_def dedupeKey_def)

text \<open>
  Claim C1, as amended. With deduplication on, among the records that a run admits at
  most one carries a given truthy \<^verbatim>\<open>match_id\<close> (one that is not \<^verbatim>\<open>null\<close>,
  \<^verbatim>\<open>false\<close>, \<^verbatim>\<open>0\<close> or the empty string); a record with no truthy \<^verbatim>\<open>match_id\<close>,
  from a block with no id, is always admitted.
\<close>

theorem aggregate_dedupes:
  "(dedupe cfg \<and> paginate rt cfg service 0 None emptyAggregate = Inr (n, agg) \<and> truthy v \<longrightarrow>
      length (filter (\<lambda>r. getProp r (js ''match_id'') = Own v) (results agg)) \<le> 1)
   \<and> (\<not> truthyProp (getProp parsed (js ''match_id'')) \<longrightarrow>
      admit rt dd None parsed agg0 = agg0\<lparr>results := results agg0 @ [parsed]\<rparr>)"
  using paginate_invariant [OF _ dedupeInvariant_empty, of cfg rt service 0 None n agg]
    admitted_at_most_once [of rt agg v] admit_without_id [of parsed rt dd agg0]
  by blast

lemma sample_run:
  "paginate sampleRuntime sampleCfg sampleService 0 None emptyAggregate =
     Inr (3, \<lparr>results = [rec100, rec200], seen = {js ''id:200'', js ''id:100''}\<rparr>)"
  using fetch_sample page_fields token_facts
    process100 [of "''t1''"] process100_again [of "''t2''"] process200 [of "''t2''"]
  by (intro paginate_three_pages [where ?j1.0 = "page100 ''t1''" and ?j2.0 = "page100 ''t2''"
        and ?j3.0 = "page200 ''t2''" and ?t1.0 = "js ''t1''" and ?t2.0 = "js ''t2''"
        and ?agg1.0 = "\<lparr>results = [rec100], seen = {js ''id:100''}\<rparr>"
        and ?agg2.0 = "\<lparr>results = [rec100], seen = {js ''id:100''}\<rparr>"])
     (simp_all add: sampleCfg_def)

text \<open>
  The sample service shows match 100 on its first page and again on its second: one
  record with the id 100 is admitted. A record with no \<^verbatim>\<open>match_id\<close> is admitted.
\<close>

theorem aggregate_dedupes_witness:
  "dedupe sampleCfg
   \<and> paginate sampleRuntime sampleCfg sampleService 0 None emptyAggregate =
       Inr (3, \<lparr>results = [rec100, rec200], seen = {js ''id:200'', js ''id:100''}\<rparr>)
   \<and> truthy (JStr (js ''100'') :: unit jsvalue)
   \<and> filter (\<lambda>r. getProp r (js ''match_id'') = Own (JStr (js ''100''))) [rec100, rec200] = [rec100]
   \<and> length (filter (\<lambda>r. getProp r (js ''match_id'') = Own (JStr (js ''100''))) [rec100, rec200]) \<le> 1
   \<and> \<not> truthyProp (getProp [(js ''kills'', JNum (Finite 3) :: unit jsvalue)] (js ''match_id''))
   \<and> admit sampleRuntime True None [(js ''kills'', JNum (Finite 3))] emptyAggregate =
       \<lparr>results = [[(js ''kills'', JNum (Finite 3))]], seen = {}\<rparr>"
  using aggregate_dedupes [of sampleCfg sampleRuntime sampleService 3
      "\<lparr>results = [rec100, rec200], seen = {js ''id:200'', js ''id:100''}\<rparr>"
      "JStr (js ''100'')" "[(js ''kills'', JNum (Finite 3))]" True emptyAggregate]
    sample_run
  by (simp add: sampleCfg_def emptyAggregate_def rec100_def rec200_def getProp_def
      objectPrototypeKeys_def js_def)

lemma fetch_zero: "fetchPage zeroService p t = Inr (Some \<lparr>success = True, html = Some htmlZero, continue_token = Some (js ''t1'')\<rparr>)"
  by (simp add: fetchPage_def zeroService_def pageOf_def fetch_eval)

lemma zero_run:
  "paginate sampleRuntime sampleCfg zeroService 0 None emptyAggregate =
     Inr (2, \<lparr>results = [recZero, recZero], seen = {}\<rparr>)"
proof -
  let ?j = "\<lparr>success = True, html = Some htmlZero, continue_token = Some (js ''t1'')\<rparr>"
  have "paginate sampleRuntime sampleCfg zeroService 0 None emptyAggregate =
      paginate sampleRuntime sampleCfg zeroService 1 (Some (js ''t1'')) \<lparr>results = [recZero], seen = {}\<rparr>"
    using paginate_next [of 0 sampleCfg zeroService None ?j sampleRuntime emptyAggregate
        "\<lparr>results = [recZero], seen = {}\<rparr>" "js ''t1''"]
      fetch_zero processZero [of "Some (js ''t1'')" "[]"] token_facts
    by (simp add: sampleCfg_def emptyAggregate_def)
  also have "\<dots> = Inr (2, \<lparr>results = [recZero, recZero], seen = {}\<rparr>)"
    using paginate_last [of 1 sampleCfg zeroService "Some (js ''t1'')" ?j sampleRuntime
        "\<lparr>results = [recZero], seen = {}\<rparr>" "\<lparr>results = [recZero, recZero], seen = {}\<rparr>"]
      fetch_zero processZero [of "Some (js ''t1'')" "[recZero]"] token_facts
    by (simp add: sampleCfg_def newTokenOf_def numeral_2_eq_2)
  finally show ?thesis .
qed

text \<open>
  Claim C1 as first stated covers every \<^verbatim>\<open>match_id\<close> that is not \<^verbatim>\<open>null\<close>. The
  table with the row \<^verbatim>\<open>Match ID: 0\<close> and no header gives a record whose
  \<^verbatim>\<open>match_id\<close> is the number 0, which is falsy: with deduplication on, the run admits
  it from both pages.
\<close>

theorem zero_id_admitted_twice:
  "dedupe sampleCfg
   \<and> getProp recZero (js ''match_id'') = Own (JNum (Finite 0))
   \<and> paginate sampleRuntime sampleCfg zeroService 0 None emptyAggregate =
       Inr (2, \<lparr>results = [recZero, recZero], seen = {}\<rparr>)
   \<and> length (filter (\<lambda>r. getProp r (js ''match_id'') = Own (JNum (Finite 0))) [recZero, recZero]) = 2"
  using zero_run by (simp add: sampleCfg_def recZero_def getProp_def)

section \<open>Properties of the serializer\<close>

lemma foldl_append_rows: "foldl (\<lambda>csv row. csv @ f row) acc rows = acc @ concat (map f rows)"
  by (induction rows arbitrary: acc) simp_all

lemma extraKeys_sorted: "sorted (extraKeys rows fixed) \<and> distinct (extraKeys rows fixed)"
  by (simp add: extraKeys_def)

lemma extraKeys_set:
  "set (extraKeys rows fixed) =
     {k. (\<exists>row \<in> set rows. k \<in> fst ` set row) \<and> k \<notin> set fixed \<and> \<not> startsWithUnderscore k}"
  by (auto simp: extraKeys_def)

text \<open>
  Claim C6. The header is the fixed column order, as configured, followed by the extra
  keys: the keys of some record that are neither in the fixed order nor start with an
  underscore, each once, in ascending lexicographic order. The output is the header row
  and then one row per record, in the order of the records; a row is its cells joined by
  commas and ended by a newline.
\<close>

theorem buildCsv_layout:
  "snd (buildCsv rt rows fixed) = fixed @ extraKeys rows fixed
   \<and> sorted (extraKeys rows fixed) \<and> distinct (extraKeys rows fixed)
   \<and> set (extraKeys rows fixed) =
       {k. (\<exists>row \<in> set rows. k \<in> fst ` set row) \<and> k \<notin> set fixed \<and> \<not> startsWithUnderscore k}
   \<and> fst (buildCsv rt rows fixed) =
       join [0x2C] (snd (buildCsv rt rows fixed)) @ [0x0A]
       @ concat (map (\<lambda>row. join [0x2C] (map (\<lambda>h. esc rt (getProp row h))
                                          (snd (buildCsv rt rows fixed))) @ [0x0A]) rows)"
  using extraKeys_sorted [of rows fixed] extraKeys_set [of rows fixed]
  by (simp add: buildCsv_def Let_def csvRow_def foldl_append_rows)

lemma sample_extraKeys:
  "extraKeys
     [[(js ''match_id'', JStr (js ''100'')), (js ''zeta'', JStr (js ''z'')), (js ''_tmp'', JNum (Finite 1))],
      [(js ''alpha'', JStr (js ''a,b'')), (js ''match_id'', JStr (js ''200'')),
       (js ''zeta'', JNull :: unit jsvalue)]]
     [js ''match_id'', js ''type''] = [js ''alpha'', js ''zeta'']"
  by (simp add: extraKeys_def startsWithUnderscore_def js_def)

text \<open>
  Two records with the fixed order \<^verbatim>\<open>match_id, type\<close>: the extra keys \<^verbatim>\<open>alpha\<close> and
  \<^verbatim>\<open>zeta\<close> follow in that order, and \<^verbatim>\<open>_tmp\<close> is left out.
\<close>

theorem buildCsv_layout_witness:
  "snd (buildCsv sampleRuntime
     [[(js ''match_id'', JStr (js ''100'')), (js ''zeta'', JStr (js ''z'')), (js ''_tmp'', JNum (Finite 1))],
      [(js ''alpha'', JStr (js ''a,b'')), (js ''match_id'', JStr (js ''200'')), (js ''zeta'', JNull)]]
     [js ''match_id'', js ''type''])
     = [js ''match_id'', js ''type'', js ''alpha'', js ''zeta'']
   \<and> fst (buildCsv sampleRuntime
     [[(js ''match_id'', JStr (js ''100'')), (js ''zeta'', JStr (js ''z'')), (js ''_tmp'', JNum (Finite 1))],
      [(js ''alpha'', JStr (js ''a,b'')), (js ''match_id'', JStr (js ''200'')), (js ''zeta'', JNull)]]
     [js ''match_id'', js ''type''])
     = js ''match_id,type,alpha,zeta'' @ [0x0A]
       @ js ''100,,,z'' @ [0x0A]
       @ js ''200,,'' @ [0x22] @ js ''a,b'' @ [0x22] @ js '','' @ [0x0A]"
proof -
  let ?rows = "[[(js ''match_id'', JStr (js ''100'')), (js ''zeta'', JStr (js ''z'')), (js ''_tmp'', JNum (Finite 1))],
      [(js ''alpha'', JStr (js ''a,b'')), (js ''match_id'', JStr (js ''200'')),
       (js ''zeta'', JNull :: unit jsvalue)]]"
  let ?fixed = "[js ''match_id'', js ''type'']"
  note layout = buildCsv_layout [of sampleRuntime ?rows ?fixed, unfolded sample_extraKeys]
  from layout have h: "snd (buildCsv sampleRuntime ?rows ?fixed) =
      [js ''match_id'', js ''type'', js ''alpha'', js ''zeta'']"
    by simp
  from layout have "fst (buildCsv sampleRuntime ?rows ?fixed) =
      join [0x2C] (snd (buildCsv sampleRuntime ?rows ?fixed)) @ [0x0A]
       @ concat (map (\<lambda>row. join [0x2C] (map (\<lambda>h. esc sampleRuntime (getProp row h))
                                          (snd (buildCsv sampleRuntime ?rows ?fixed))) @ [0x0A]) ?rows)"
    by (elim conjE)
  then have "fst (buildCsv sampleRuntime ?rows ?fixed) =
      js ''match_id,type,alpha,zeta'' @ [0x0A]
       @ js ''100,,,z'' @ [0x0A]
       @ js ''200,,'' @ [0x22] @ js ''a,b'' @ [0x22] @ js '','' @ [0x0A]"
    unfolding h
    by (simp add: getProp_def objectPrototypeKeys_def escapeText_def doubleQuotes_def
        isSpecial_def js_def)
  with h show ?thesis
    by simp
qed

lemma unquoteBody_doubleQuotes: "unquoteBody (doubleQuotes s @ [0x22]) = Some s"
proof (induction s)
  case Nil
  show ?case by (simp add: doubleQuotes_def)
next
  case (Cons c cs)
  obtain d ds where ds: "doubleQuotes cs @ [0x22] = d # ds"
    by (cases "doubleQuotes cs @ [0x22]") auto
  show ?case
  proof (cases "c = 0x22")
    case True
    with Cons show ?thesis
      by (simp add: doubleQuotes_def)
  next
    case False
    have "doubleQuotes (c # cs) @ [0x22] = c # d # ds"
      using False ds by (simp add: doubleQuotes_def)
    with False Cons ds show ?thesis
      by simp
  qed
qed

lemma csvUnescape_escapeText: "csvUnescape (escapeText s) = Some s"
proof (cases "list_ex isSpecial s")
  case True
  then show ?thesis
    by (simp add: escapeText_def csvUnescape_def unquoteBody_doubleQuotes)
next
  case False
  then have "s = [] \<or> hd s \<noteq> 0x22"
    by (cases s) (auto simp: isSpecial_def)
  with False show ?thesis
    by (cases s) (auto simp: escapeText_def csvUnescape_def)
qed

lemma esc_own: "v \<noteq> JNull \<Longrightarrow> esc rt (Own v) = escapeText (stringify rt v)"
  by (cases v) simp_all

text \<open>
  Claim C7. The escape function gives the empty field for \<^verbatim>\<open>null\<close> and for a missing
  value, and serializes a structured value with \<^verbatim>\<open>JSON.stringify\<close>; a text with a
  double quote, a comma or a newline is put between double quotes, with each of its
  double quotes doubled; and a standard reader gets the stringified value back from the
  escaped cell of every value that has such a character.
\<close>

theorem esc_law:
  "esc rt Undefined = [] \<and> esc rt (Own JNull) = []
   \<and> esc rt (Own (JObj ob)) = escapeText (jsonStringify rt ob)
   \<and> (v \<noteq> JNull \<longrightarrow> esc rt (Own v) = escapeText (stringify rt v))
   \<and> (list_ex isSpecial s \<longrightarrow> escapeText s = [0x22] @ doubleQuotes s @ [0x22])
   \<and> doubleQuotes s = concat (map (\<lambda>c. if c = 0x22 then [0x22, 0x22] else [c]) s)
   \<and> (v \<noteq> JNull \<and> list_ex isSpecial (stringify rt v) \<longrightarrow>
        csvUnescape (esc rt (Own v)) = Some (stringify rt v))
   \<and> (list_ex isSpecial (inheritedText rt k) \<longrightarrow>
        csvUnescape (esc rt (Inherited k)) = Some (inheritedText rt k))"
proof (intro conjI impI)
  show "esc rt Undefined = []" and "esc rt (Own JNull) = []"
    and "esc rt (Own (JObj ob)) = escapeText (jsonStringify rt ob)"
    by simp_all
  show "esc rt (Own v) = escapeText (stringify rt v)" if "v \<noteq> JNull"
    using that by (rule esc_own)
  show "escapeText s = [0x22] @ doubleQuotes s @ [0x22]" if "list_ex isSpecial s"
    using that by (simp add: escapeText_def)
  show "doubleQuotes s = concat (map (\<lambda>c. if c = 0x22 then [0x22, 0x22] else [c]) s)"
    by (simp add: doubleQuotes_def)
  show "csvUnescape (esc rt (Own v)) = Some (stringify rt v)"
    if "v \<noteq> JNull \<and> list_ex isSpecial (stringify rt v)"
    using that by (simp add: esc_own csvUnescape_escapeText)
  show "csvUnescape (esc rt (Inherited k)) = Some (inheritedText rt k)"
    by (simp add: csvUnescape_escapeText)
qed

text \<open>
  The text \<^verbatim>\<open>say "hi", ok\<close>, and a structured value, which the sample runtime
  serializes as \<^verbatim>\<open>[1,2]\<close>.
\<close>

theorem esc_law_witness:
  "list_ex isSpecial (js ''say '' @ [0x22] @ js ''hi'' @ [0x22] @ js '', ok'')
   \<and> esc sampleRuntime (Own (JStr (js ''say '' @ [0x22] @ js ''hi'' @ [0x22] @ js '', ok'')))
       = [0x22] @ js ''say '' @ [0x22, 0x22] @ js ''hi'' @ [0x22, 0x22] @ js '', ok'' @ [0x22]
   \<and> csvUnescape (esc sampleRuntime
         (Own (JStr (js ''say '' @ [0x22] @ js ''hi'' @ [0x22] @ js '', ok''))))
       = Some (js ''say '' @ [0x22] @ js ''hi'' @ [0x22] @ js '', ok'')
   \<and> esc sampleRuntime (Own (JObj ())) = [0x22] @ js ''[1,2]'' @ [0x22]
   \<and> csvUnescape (esc sampleRuntime (Own (JObj ()))) = Some (js ''[1,2]'')"
  using esc_law [of sampleRuntime "()"
      "JStr (js ''say '' @ [0x22] @ js ''hi'' @ [0x22] @ js '', ok'')"
      "js ''say '' @ [0x22] @ js ''hi'' @ [0x22] @ js '', ok''" "js ''constructor''"]
    esc_law [of sampleRuntime "()" "JObj ()" "js ''[1,2]''" "js ''constructor''"]
  by (simp add: sampleRuntime_def isSpecial_def doubleQuotes_def csvUnescape_def js_def)

end
